theory Spec2Isabelle
  imports Complex_Main
begin

section \<open>Values thrown by JavaScript code\<close>

text \<open>
  A rejected promise or a \<^verbatim>\<open>throw\<close> carries a value. The handlers of the
  repository only ask \<^verbatim>\<open>err instanceof Error ? err.message : 'An error occurred'\<close>,
  so a thrown value is either an \<^verbatim>\<open>Error\<close> instance (any subclass: TypeError,
  RangeError, viem's BaseError) with its message, or something else. A function that
  can throw returns \<open>thrown + 'a\<close>, with \<open>Inl\<close> for the throw.
\<close>

datatype thrown = Error string | NonError

fun error_message :: "thrown \<Rightarrow> string" where
  "error_message (Error m) = m"
| "error_message NonError = ''An error occurred''"

section \<open>BigInt and Number\<close>

text \<open>
  Block heights are \<^verbatim>\<open>bigint\<close>, modelled by \<open>int\<close>. The pagination loops compute the
  end of a sub-range as
  \<^verbatim>\<open>BigInt(Math.min(Number(currentFromBlock + BLOCK_RANGE), Number(latestBlock)))\<close>,
  that is, through IEEE 754 doubles. \<^verbatim>\<open>Number(n)\<close> of a bigint is the double nearest to
  \<open>n\<close> (ties to the even significand, 53 significant bits), or an infinity from
  \<open>2^1024 - 2^970\<close> on. Every double obtained this way is an integer, so a
  \<^verbatim>\<open>number\<close> is modelled by its integer value, the two infinities, and NaN (which
  \<^verbatim>\<open>Number(undefined)\<close> gives in the notice decoder).
\<close>

datatype number = Num int | PosInfinity | NegInfinity | NaN

fun bit_length :: "nat \<Rightarrow> nat" where
  "bit_length n = (if n = 0 then 0 else Suc (bit_length (n div 2)))"

declare bit_length.simps [simp del]

definition round_to_double :: "nat \<Rightarrow> nat" where
  "round_to_double n =
     (if bit_length n \<le> 53 then n
      else let s = bit_length n - 53;
               q = n div 2 ^ s;
               r = n mod 2 ^ s;
               h = 2 ^ (s - 1)
           in (if h < r \<or> (r = h \<and> odd q) then q + 1 else q) * 2 ^ s)"

definition toNumber :: "int \<Rightarrow> number" where
  "toNumber i =
     (let m = round_to_double (nat \<bar>i\<bar>)
      in if 2 ^ 1024 \<le> m then (if i < 0 then NegInfinity else PosInfinity)
         else Num (if i < 0 then - int m else int m))"

fun Math_min :: "number \<Rightarrow> number \<Rightarrow> number" where
  "Math_min NaN b = NaN"
| "Math_min a NaN = NaN"
| "Math_min NegInfinity b = NegInfinity"
| "Math_min a NegInfinity = NegInfinity"
| "Math_min PosInfinity b = b"
| "Math_min a PosInfinity = a"
| "Math_min (Num a) (Num b) = Num (min a b)"

text \<open>
  \<^verbatim>\<open>BigInt(x)\<close> of a number throws a RangeError unless \<open>x\<close> is an integer; the message
  is V8's.
\<close>

fun number_name :: "number \<Rightarrow> string" where
  "number_name PosInfinity = ''Infinity''"
| "number_name NegInfinity = ''-Infinity''"
| "number_name NaN = ''NaN''"
| "number_name (Num i) = ''''"

fun toBigInt :: "number \<Rightarrow> thrown + int" where
  "toBigInt (Num i) = Inr i"
| "toBigInt x =
     Inl (Error (''The number '' @ number_name x @
                 '' cannot be converted to a BigInt because it is not an integer''))"

definition MAX_SAFE_INTEGER :: int where
  "MAX_SAFE_INTEGER = 2 ^ 53 - 1"

section \<open>The pagination loop\<close>

text \<open>
  \<^verbatim>\<open>fetchAllTasks\<close> (TasksList.tsx) and \<^verbatim>\<open>fetchAllEvents\<close> (EventsList.tsx) contain the
  same loop, with different constants and a different fetch function:
  \<^verbatim>\<open>
    while (currentFromBlock <= latestBlock) {
      const currentToBlock = BigInt(Math.min(
        Number(currentFromBlock + BLOCK_RANGE), Number(latestBlock)));
      const batchTasks = await fetchTasksInRange(currentFromBlock, currentToBlock);
      allTasks.push(...batchTasks);
      if (currentToBlock === latestBlock) break;
      currentFromBlock = currentToBlock + 1n;
    }
    return allTasks;
  \<close>
  The loop is modelled once, with the fetch function, \<^verbatim>\<open>BLOCK_RANGE\<close> and
  \<^verbatim>\<open>latestBlock\<close> as parameters and the loop variables \<^verbatim>\<open>currentFromBlock\<close> and
  \<^verbatim>\<open>allTasks\<close> as arguments. The extra argument \<open>calls\<close> records the sub-ranges
  passed to the fetch function so far. The loop may run forever, so it returns an
  option: \<open>None\<close> is a loop that never returns. A returned value holds the calls made
  and either the thrown value or the array returned.
\<close>

partial_function (option) paginate_loop ::
  "(int \<Rightarrow> int \<Rightarrow> thrown + 'a list) \<Rightarrow> int \<Rightarrow> int \<Rightarrow> int \<Rightarrow> (int \<times> int) list \<Rightarrow> 'a list
     \<Rightarrow> ((int \<times> int) list \<times> (thrown + 'a list)) option"
where
  "paginate_loop fetch BLOCK_RANGE latestBlock currentFromBlock calls allTasks =
     (if currentFromBlock \<le> latestBlock then
        (case toBigInt (Math_min (toNumber (currentFromBlock + BLOCK_RANGE))
                                 (toNumber latestBlock)) of
           Inl err \<Rightarrow> Some (calls, Inl err)
         | Inr currentToBlock \<Rightarrow>
             (case fetch currentFromBlock currentToBlock of
                Inl err \<Rightarrow> Some (calls @ [(currentFromBlock, currentToBlock)], Inl err)
              | Inr batchTasks \<Rightarrow>
                  if currentToBlock = latestBlock
                  then Some (calls @ [(currentFromBlock, currentToBlock)],
                             Inr (allTasks @ batchTasks))
                  else paginate_loop fetch BLOCK_RANGE latestBlock (currentToBlock + 1)
                         (calls @ [(currentFromBlock, currentToBlock)])
                         (allTasks @ batchTasks)))
      else Some (calls, Inr allTasks))"

declare paginate_loop.simps [code]

definition paginate ::
  "(int \<Rightarrow> int \<Rightarrow> thrown + 'a list) \<Rightarrow> int \<Rightarrow> int \<Rightarrow> int
     \<Rightarrow> ((int \<times> int) list \<times> (thrown + 'a list)) option" where
  "paginate fetch start tip maxSpan = paginate_loop fetch maxSpan tip start [] []"

text \<open>A fetch function for examples: it answers with the sub-range it was asked for.\<close>

definition echo_fetch :: "int \<Rightarrow> int \<Rightarrow> thrown + (int \<times> int) list" where
  "echo_fetch f t = Inr [(f, t)]"

text \<open>
  The sub-ranges \<open>rs\<close> tile the blocks from \<open>a\<close> to \<open>tip\<close> with spans of \<open>maxSpan\<close>:
  each starts where the previous one ended, ends at \<open>min (from + maxSpan) tip\<close>, and
  the last one ends at \<open>tip\<close>.
\<close>

fun tiles :: "int \<Rightarrow> int \<Rightarrow> int \<Rightarrow> (int \<times> int) list \<Rightarrow> bool" where
  "tiles maxSpan tip a [] = (a = tip + 1)"
| "tiles maxSpan tip a ((f, t) # rs) =
     (f = a \<and> t = min (a + maxSpan) tip \<and> a \<le> t \<and> tiles maxSpan tip (t + 1) rs)"

section \<open>Strings\<close>

text \<open>
  Strings are lists of bytes. \<^verbatim>\<open>toLowerCase\<close> is modelled on ASCII letters; other bytes
  are kept. JavaScript also lowers letters beyond ASCII, but an address returned by the
  client is \<^verbatim>\<open>0x\<close> followed by hexadecimal digits, and no character beyond ASCII has a
  lower-case form made of those, so the comparison in \<^verbatim>\<open>fetchTasks\<close> gives the same
  answer.
\<close>

definition toLowerCase_char :: "char \<Rightarrow> char" where
  "toLowerCase_char c =
     (case map_of (zip ''ABCDEFGHIJKLMNOPQRSTUVWXYZ'' ''abcdefghijklmnopqrstuvwxyz'') c of
        Some l \<Rightarrow> l
      | None \<Rightarrow> c)"

definition toLowerCase :: "string \<Rightarrow> string" where
  "toLowerCase s = map toLowerCase_char s"

text \<open>\<^verbatim>\<open>n.toString(10)\<close> of a bigint.\<close>

fun digits10 :: "nat \<Rightarrow> string" where
  "digits10 n =
     (if n < 10 then [''0123456789'' ! n]
      else digits10 (n div 10) @ [''0123456789'' ! (n mod 10)])"

declare digits10.simps [simp del]

definition toString10 :: "int \<Rightarrow> string" where
  "toString10 i = (if i < 0 then CHR ''-'' # digits10 (nat (- i)) else digits10 (nat i))"

text \<open>
  The comparison that the specification names, "case-insensitive compare", written
  on its own for the comparison with the filter of the code: two strings are equal up
  to case when they have the same length and agree position by position up to the
  case of ASCII letters.
\<close>

fun equal_ignoring_case :: "string \<Rightarrow> string \<Rightarrow> bool" where
  "equal_ignoring_case [] [] = True"
| "equal_ignoring_case (a # as) (b # bs) =
     (toLowerCase_char a = toLowerCase_char b \<and> equal_ignoring_case as bs)"
| "equal_ignoring_case _ _ = False"

section \<open>Logs, the client and the effects of a fetch\<close>

text \<open>
  A \<^verbatim>\<open>Task\<close> and an \<^verbatim>\<open>Event\<close> are viem logs with decoded \<^verbatim>\<open>args\<close>; of the other
  fields of a log the code reads \<^verbatim>\<open>transactionHash\<close> and \<^verbatim>\<open>blockNumber\<close> only.
\<close>

record input_details =
  hash :: string
  blockNumber :: string

record task_args =
  machineHash :: string
  input :: string
  callback :: string

record event_args =
  payloadHash :: string
  user :: string
  notice :: string

record 'a log =
  transactionHash :: string
  blockNumber :: int
  args :: 'a

type_synonym task = "task_args log"
type_synonym event = "event_args log"

text \<open>The transaction returned by \<^verbatim>\<open>client.getTransaction\<close>; the code reads \<^verbatim>\<open>tx.from\<close>.\<close>

record transaction =
  tx_from :: string

text \<open>The argument of \<^verbatim>\<open>client.getContractEvents\<close> (the ABI is fixed by the event name).\<close>

record query =
  address :: string
  eventName :: string
  filter_args :: "string \<times> string"
  fromBlock :: int
  toBlock :: int

text \<open>
  The public client of viem. Its calls go to the network and can reject; a call is
  modelled by the answer it gets.
\<close>

record 'l client =
  getBlockNumber :: "thrown + int"
  getContractEvents :: "query \<Rightarrow> thrown + 'l list"
  getTransaction :: "string \<Rightarrow> thrown + transaction"

text \<open>
  What a fetch operation does, in order: requests to the network and calls of the
  state setters. (\<^verbatim>\<open>console.error\<close> and \<^verbatim>\<open>console.log\<close> are left out.)
\<close>

datatype effect =
    RpcGetBlockNumber
  | RpcGetContractEvents query
  | RpcGetTransaction string
  | SetTasks "task list"
  | SetEvents "event list"
  | SetIsLoading bool
  | SetError "string option"

fun is_rpc :: "effect \<Rightarrow> bool" where
  "is_rpc RpcGetBlockNumber = True"
| "is_rpc (RpcGetContractEvents q) = True"
| "is_rpc (RpcGetTransaction h) = True"
| "is_rpc e = False"

text \<open>
  \<^verbatim>\<open>Promise.all\<close> over promises that are all started: it fulfils with every value, in
  order, or rejects. When several promises reject, JavaScript rejects with the one
  that settles first; the model takes the first in the list.
\<close>

fun Promise_all :: "(thrown + 'a) list \<Rightarrow> thrown + 'a list" where
  "Promise_all [] = Inr []"
| "Promise_all (Inl err # ps) = Inl err"
| "Promise_all (Inr v # ps) =
     (case Promise_all ps of Inl err \<Rightarrow> Inl err | Inr vs \<Rightarrow> Inr (v # vs))"

section \<open>TasksList.tsx\<close>

definition BLOCK_RANGE :: int where
  "BLOCK_RANGE = 50000"

definition tasks_query :: "int \<Rightarrow> int \<Rightarrow> query" where
  "tasks_query from_block to_block =
     \<lparr>address = ''0xff35E413F5e22A9e1Cc02F92dcb78a5076c1aaf3'',
      eventName = ''TaskIssued'',
      filter_args = (''callback'', ''0x844E494489BEFC2baA9c6d168a659264a7779505''),
      fromBlock = from_block,
      toBlock = to_block\<rparr>"

definition fetchTasksInRange :: "task client \<Rightarrow> int \<Rightarrow> int \<Rightarrow> thrown + task list" where
  "fetchTasksInRange client from_block to_block =
     getContractEvents client (tasks_query from_block to_block)"

text \<open>
  \<^verbatim>\<open>fetchAllTasks\<close>: the loop above from block 3358671 to the block number the client
  reports, with the requests it makes.
\<close>

definition fetchAllTasks :: "task client \<Rightarrow> (effect list \<times> (thrown + task list)) option" where
  "fetchAllTasks client =
     (case getBlockNumber client of
        Inl err \<Rightarrow> Some ([RpcGetBlockNumber], Inl err)
      | Inr latestBlock \<Rightarrow>
          (case paginate (fetchTasksInRange client) 3358671 latestBlock BLOCK_RANGE of
             None \<Rightarrow> None
           | Some (calls, res) \<Rightarrow>
               Some (RpcGetBlockNumber #
                     map (\<lambda>(f, t). RpcGetContractEvents (tasks_query f t)) calls, res)))"

text \<open>
  The filter of \<^verbatim>\<open>fetchTasks\<close>:
  \<^verbatim>\<open>userTasks.filter(({ from }) => from.toLowerCase() === formattedAddress).map(({ task }) => task)\<close>.
\<close>

definition filterTasks :: "string \<Rightarrow> (task \<times> string) list \<Rightarrow> task list" where
  "filterTasks formattedAddress userTasks =
     map fst (filter (\<lambda>(task, sender). toLowerCase sender = formattedAddress) userTasks)"

text \<open>
  The body of the \<^verbatim>\<open>try\<close> block of \<^verbatim>\<open>fetchTasks\<close>, up to the value given to
  \<^verbatim>\<open>setTasks\<close>: the requests made, and the thrown value or the filtered tasks.
\<close>

definition fetchTasks_try ::
  "task client \<Rightarrow> string \<Rightarrow> (effect list \<times> (thrown + task list)) option" where
  "fetchTasks_try client addr =
     (let formattedAddress = toLowerCase addr in
      case fetchAllTasks client of
        None \<Rightarrow> None
      | Some (rpcs, Inl err) \<Rightarrow> Some (rpcs, Inl err)
      | Some (rpcs, Inr fetchedTasks) \<Rightarrow>
          (let lookups = map (\<lambda>task. RpcGetTransaction (transactionHash task)) fetchedTasks in
           case Promise_all
                  (map (\<lambda>task. case getTransaction client (transactionHash task) of
                                  Inl err \<Rightarrow> Inl err
                                | Inr tx \<Rightarrow> Inr (task, tx_from tx)) fetchedTasks) of
             Inl err \<Rightarrow> Some (rpcs @ lookups, Inl err)
           | Inr userTasks \<Rightarrow>
               Some (rpcs @ lookups, Inr (filterTasks formattedAddress userTasks))))"

text \<open>
  The state \<^verbatim>\<open>fetchTasks\<close> works on: \<^verbatim>\<open>userAddress\<close> and \<^verbatim>\<open>tasks\<close> belong to
  \<^verbatim>\<open>App\<close> and reach \<^verbatim>\<open>TasksList\<close> as props, \<^verbatim>\<open>isLoading\<close> and \<^verbatim>\<open>error\<close> are the
  two hooks of the component (\<^verbatim>\<open>EventsList\<close> has the same two).
\<close>

record app_state =
  selectedPayloadHash :: "string option"
  inputDetails :: "input_details option"
  userAddress :: string
  tasks :: "task list"

record hooks =
  isLoading :: bool
  error :: "string option"

fun apply_effect :: "effect \<Rightarrow> app_state \<times> hooks \<Rightarrow> app_state \<times> hooks" where
  "apply_effect (SetTasks ts) (app, h) = (app\<lparr>tasks := ts\<rparr>, h)"
| "apply_effect (SetIsLoading b) (app, h) = (app, h\<lparr>isLoading := b\<rparr>)"
| "apply_effect (SetError e) (app, h) = (app, h\<lparr>error := e\<rparr>)"
| "apply_effect _ (app, h) = (app, h)"

text \<open>
  \<^verbatim>\<open>fetchTasks\<close>: the effects of one call, in order. \<open>None\<close> is a call whose
  pagination loop never returns.
\<close>

definition fetchTasks_effects :: "task client \<Rightarrow> string \<Rightarrow> effect list option" where
  "fetchTasks_effects client addr =
     (if addr = [] then Some [SetError (Some ''Please enter a valid address'')]
      else case fetchTasks_try client addr of
        None \<Rightarrow> None
      | Some (rpcs, Inr filteredTasks) \<Rightarrow>
          Some ([SetIsLoading True, SetError None] @ rpcs @
                [SetTasks filteredTasks, SetIsLoading False])
      | Some (rpcs, Inl err) \<Rightarrow>
          Some ([SetIsLoading True, SetError None] @ rpcs @
                [SetError (Some (error_message err)), SetIsLoading False]))"

definition fetchTasks ::
  "task client \<Rightarrow> app_state \<times> hooks \<Rightarrow> ((app_state \<times> hooks) \<times> effect list) option" where
  "fetchTasks client s =
     (case fetchTasks_effects client (userAddress (fst s)) of
        None \<Rightarrow> None
      | Some effects \<Rightarrow> Some (fold apply_effect effects s, effects))"

section \<open>EventsList.tsx\<close>

definition events_query :: "string \<Rightarrow> int \<Rightarrow> int \<Rightarrow> query" where
  "events_query payload_hash from_block to_block =
     \<lparr>address = ''0x844E494489BEFC2baA9c6d168a659264a7779505'',
      eventName = ''NoticeReceived'',
      filter_args = (''payloadHash'', payload_hash),
      fromBlock = from_block,
      toBlock = to_block\<rparr>"

definition fetchEventsInRange ::
  "event client \<Rightarrow> int \<Rightarrow> int \<Rightarrow> string \<Rightarrow> thrown + event list" where
  "fetchEventsInRange client from_block to_block payload_hash =
     getContractEvents client (events_query payload_hash from_block to_block)"

text \<open>\<^verbatim>\<open>fetchAllEvents\<close>: the same loop, from block 3358559.\<close>

definition fetchAllEvents ::
  "event client \<Rightarrow> string \<Rightarrow> (effect list \<times> (thrown + event list)) option" where
  "fetchAllEvents client payload_hash =
     (case getBlockNumber client of
        Inl err \<Rightarrow> Some ([RpcGetBlockNumber], Inl err)
      | Inr latestBlock \<Rightarrow>
          (case paginate (\<lambda>f t. fetchEventsInRange client f t payload_hash)
                  3358559 latestBlock BLOCK_RANGE of
             None \<Rightarrow> None
           | Some (calls, res) \<Rightarrow>
               Some (RpcGetBlockNumber #
                     map (\<lambda>(f, t). RpcGetContractEvents (events_query payload_hash f t)) calls,
                     res)))"

fun apply_effect_events :: "effect \<Rightarrow> event list \<times> hooks \<Rightarrow> event list \<times> hooks" where
  "apply_effect_events (SetEvents es) (events, h) = (es, h)"
| "apply_effect_events (SetIsLoading b) (events, h) = (events, h\<lparr>isLoading := b\<rparr>)"
| "apply_effect_events (SetError e) (events, h) = (events, h\<lparr>error := e\<rparr>)"
| "apply_effect_events _ (events, h) = (events, h)"

definition fetchEvents_effects :: "event client \<Rightarrow> string \<Rightarrow> effect list option" where
  "fetchEvents_effects client payload_hash =
     (case fetchAllEvents client payload_hash of
        None \<Rightarrow> None
      | Some (rpcs, Inr fetchedEvents) \<Rightarrow>
          Some ([SetIsLoading True, SetError None] @ rpcs @
                [SetEvents fetchedEvents, SetIsLoading False])
      | Some (rpcs, Inl err) \<Rightarrow>
          Some ([SetIsLoading True, SetError None] @ rpcs @
                [SetError (Some (error_message err)), SetIsLoading False]))"

definition fetchEvents ::
  "event client \<Rightarrow> string \<Rightarrow> event list \<times> hooks
     \<Rightarrow> ((event list \<times> hooks) \<times> effect list) option" where
  "fetchEvents client payload_hash s =
     (case fetchEvents_effects client payload_hash of
        None \<Rightarrow> None
      | Some effects \<Rightarrow> Some (fold apply_effect_events effects s, effects))"

section \<open>The payload decoders\<close>

text \<open>
  The decoders call functions of viem and of the JavaScript runtime that are not part
  of the repository: \<^verbatim>\<open>hexToString\<close>, \<^verbatim>\<open>JSON.parse\<close>, \<^verbatim>\<open>decodeAbiParameters\<close>,
  \<^verbatim>\<open>keccak256\<close>, and the conversion to a string of a number, an array or an object.
  They are parameters of the model, collected in a record; those that can throw return
  a sum.
\<close>

datatype json =
    JNull
  | JBool bool
  | JNumber real
  | JString string
  | JArray "json list"
  | JObject "(string \<times> json) list"

text \<open>The tuple \<^verbatim>\<open>[result, theme, classes, probabilities]\<close> of a decoded notice.\<close>

record notice_tuple =
  result :: int
  theme :: string
  classes :: "string list"
  probabilities :: "int list"

record library =
  hexToString :: "string \<Rightarrow> thrown + string"
  JSON_parse :: "string \<Rightarrow> thrown + json"
  ToString :: "json \<Rightarrow> thrown + string"
  Number_toString :: "int \<Rightarrow> string"
  decodeAbiParameters :: "string \<Rightarrow> thrown + notice_tuple"
  keccak256 :: "string \<Rightarrow> string"

text \<open>
  Reading the property \<^verbatim>\<open>image\<close> or \<^verbatim>\<open>theme\<close> of a parsed JSON value: a TypeError on
  \<^verbatim>\<open>null\<close>, the own property of an object (a parsed object has each key once), and
  \<^verbatim>\<open>undefined\<close> (\<open>None\<close>) otherwise, as no prototype has a property of these names.
\<close>

fun get_property :: "json \<Rightarrow> string \<Rightarrow> thrown + json option" where
  "get_property JNull k =
     Inl (Error (''Cannot read properties of null (reading '' @ [CHR 0x27] @ k @ [CHR 0x27] @ '')''))"
| "get_property (JObject kvs) k = Inr (map_of kvs k)"
| "get_property v k = Inr None"

text \<open>The value of \<^verbatim>\<open>${base64String}\<close> in a template literal.\<close>

fun template_value :: "library \<Rightarrow> json option \<Rightarrow> thrown + string" where
  "template_value lib None = Inr ''undefined''"
| "template_value lib (Some JNull) = Inr ''null''"
| "template_value lib (Some (JBool b)) = Inr (if b then ''true'' else ''false'')"
| "template_value lib (Some (JString s)) = Inr s"
| "template_value lib (Some v) = ToString lib v"

text \<open>
  What a decoder returns: a string, or a React element with a tag, props and children;
  a child written \<^verbatim>\<open>{jsonData.theme}\<close> is the value itself. (The \<^verbatim>\<open>onError\<close> handler
  of the image is left out of the props.)
\<close>

datatype jsx =
    Text string
  | Expr "json option"
  | Element string "(string \<times> string) list" "jsx list"

definition decodeImageFromHex_try :: "library \<Rightarrow> string \<Rightarrow> thrown + jsx" where
  "decodeImageFromHex_try lib inputHex =
     (case hexToString lib inputHex of
        Inl err \<Rightarrow> Inl err
      | Inr jsonString \<Rightarrow>
     (case JSON_parse lib jsonString of
        Inl err \<Rightarrow> Inl err
      | Inr jsonData \<Rightarrow>
     (case get_property jsonData ''image'' of
        Inl err \<Rightarrow> Inl err
      | Inr base64String \<Rightarrow>
     (case template_value lib base64String of
        Inl err \<Rightarrow> Inl err
      | Inr b64 \<Rightarrow>
     (case get_property jsonData ''theme'' of
        Inl err \<Rightarrow> Inl err
      | Inr theme_value \<Rightarrow>
          Inr (Element ''div'' [(''className'', ''image-container'')]
                [Element ''img''
                   [(''src'', ''data:image/png;base64,'' @ b64),
                    (''alt'', ''User submission''),
                    (''className'', ''submission-thumbnail'')] [],
                 Element ''p'' [(''className'', ''theme-text'')] [Expr theme_value]]))))))"

text \<open>
  \<^verbatim>\<open>decodeImageFromHex\<close>: the \<^verbatim>\<open>try\<close> block, and the \<^verbatim>\<open>catch\<close> that returns the
  string. The result type still allows a throw, so that "never throws" is a theorem.
\<close>

definition decodeImageFromHex :: "library \<Rightarrow> string \<Rightarrow> thrown + jsx" where
  "decodeImageFromHex lib inputHex =
     (case decodeImageFromHex_try lib inputHex of
        Inl err \<Rightarrow> Inr (Text ''Unable to decode image data'')
      | Inr element \<Rightarrow> Inr element)"

text \<open>
  \<^verbatim>\<open>x.toFixed(1)\<close> of a number with an integer value: the decimal digits and \<^verbatim>\<open>.0\<close>
  below \<open>10^21\<close>, the runtime's \<^verbatim>\<open>Number::toString\<close> from there on and for the values
  that are not finite.
\<close>

fun toFixed1 :: "library \<Rightarrow> number \<Rightarrow> string" where
  "toFixed1 lib NaN = ''NaN''"
| "toFixed1 lib PosInfinity = ''Infinity''"
| "toFixed1 lib NegInfinity = ''-Infinity''"
| "toFixed1 lib (Num i) =
     (if \<bar>i\<bar> < 10 ^ 21 then toString10 i @ ''.0'' else Number_toString lib i)"

text \<open>
  \<^verbatim>\<open>Number(probabilities[index]).toFixed(1)\<close>: an index past the end of the array
  reads \<^verbatim>\<open>undefined\<close>, and \<^verbatim>\<open>Number(undefined)\<close> is NaN.
\<close>

definition probability_text :: "library \<Rightarrow> int list \<Rightarrow> nat \<Rightarrow> string" where
  "probability_text lib ps index =
     toFixed1 lib (if index < length ps then toNumber (ps ! index) else NaN)"

definition class_item :: "library \<Rightarrow> int list \<Rightarrow> string \<times> nat \<Rightarrow> jsx" where
  "class_item lib ps = (\<lambda>(className, index).
     Element ''li'' [(''key'', toString10 (int index))]
       [Text className, Text '': '', Text (probability_text lib ps index), Text ''%''])"

definition decodeNotice_try :: "library \<Rightarrow> string \<Rightarrow> thrown + jsx" where
  "decodeNotice_try lib noticeHex =
     (case decodeAbiParameters lib noticeHex of
        Inl err \<Rightarrow> Inl err
      | Inr n \<Rightarrow>
          Inr (Element ''div'' []
                [Element ''p'' []
                   [Element ''strong'' [] [Text ''Result:''], Text '' '',
                    Text (toString10 (result n)), Text '' %''],
                 Element ''p'' []
                   [Element ''strong'' [] [Text ''Theme:''], Text '' '', Text (theme n)],
                 Element ''p'' [] [Element ''strong'' [] [Text ''Classes:'']],
                 Element ''ul'' []
                   (map (class_item lib (probabilities n))
                      (zip (classes n) [0..<length (classes n)]))]))"

definition decodeNotice :: "library \<Rightarrow> string \<Rightarrow> thrown + jsx" where
  "decodeNotice lib noticeHex =
     (case decodeNotice_try lib noticeHex of
        Inl err \<Rightarrow> Inr (Text ''Unable to decode notice'')
      | Inr element \<Rightarrow> Inr element)"

section \<open>App.tsx\<close>

text \<open>
  \<^verbatim>\<open>App\<close> shows the detail view when \<^verbatim>\<open>selectedPayloadHash\<close> is truthy (neither
  \<^verbatim>\<open>null\<close> nor the empty string), and the listing otherwise.
\<close>

datatype view = Listing | Detail

definition current_view :: "app_state \<Rightarrow> view" where
  "current_view app =
     (case selectedPayloadHash app of
        None \<Rightarrow> Listing
      | Some h \<Rightarrow> if h = [] then Listing else Detail)"

definition handleTaskClick :: "string \<Rightarrow> string \<Rightarrow> string \<Rightarrow> app_state \<Rightarrow> app_state" where
  "handleTaskClick payload_hash inputTx block_number app =
     app\<lparr>selectedPayloadHash := Some payload_hash,
         inputDetails := Some (input_details.make inputTx block_number)\<rparr>"

definition computePayloadHash :: "library \<Rightarrow> string \<Rightarrow> string" where
  "computePayloadHash lib inp = keccak256 lib inp"

text \<open>The \<^verbatim>\<open>onClick\<close> of a task card in \<^verbatim>\<open>TasksList\<close>.\<close>

definition task_onClick :: "library \<Rightarrow> task \<Rightarrow> app_state \<Rightarrow> app_state" where
  "task_onClick lib task app =
     handleTaskClick (computePayloadHash lib (input (args task)))
       (transactionHash task) (toString10 (blockNumber task)) app"

text \<open>The \<^verbatim>\<open>onClick\<close> of the back button.\<close>

definition back_onClick :: "app_state \<Rightarrow> app_state" where
  "back_onClick app = app\<lparr>selectedPayloadHash := None\<rparr>"

text \<open>
  The fetches React starts after a change of the \<^verbatim>\<open>App\<close> state: \<^verbatim>\<open>EventsList\<close> runs
  \<^verbatim>\<open>fetchEvents\<close> in an effect that depends on \<^verbatim>\<open>payloadHash\<close>, so when it is mounted
  and when the hash changes; \<^verbatim>\<open>TasksList\<close> has no effect, its \<^verbatim>\<open>fetchTasks\<close> runs on
  a click of its button only.
\<close>

datatype started = StartFetchEvents string

definition fetches_started :: "app_state \<Rightarrow> app_state \<Rightarrow> started list" where
  "fetches_started app app' =
     (case current_view app' of
        Listing \<Rightarrow> []
      | Detail \<Rightarrow>
          (case selectedPayloadHash app' of
             None \<Rightarrow> []
           | Some h \<Rightarrow>
               if current_view app = Detail \<and> selectedPayloadHash app = Some h then []
               else [StartFetchEvents h]))"

section \<open>Example data\<close>

text \<open>
  Concrete clients, states and payloads, on which the theorems below are evaluated.
  The example client reports block 3458672, so that the loop of \<^verbatim>\<open>fetchAllTasks\<close>
  makes two requests; the failing client rejects the second one.
\<close>

definition example_task :: "string \<Rightarrow> int \<Rightarrow> task" where
  "example_task h n =
     \<lparr>transactionHash = h, blockNumber = n,
      args = \<lparr>machineHash = ''0x01'', input = ''0x7b7d'',
              callback = ''0x844E494489BEFC2baA9c6d168a659264a7779505''\<rparr>\<rparr>"

definition example_client :: "task client" where
  "example_client =
     \<lparr>getBlockNumber = Inr 3458672,
      getContractEvents = (\<lambda>q. if fromBlock q = 3358671
         then Inr [example_task ''0xaa'' 3358700, example_task ''0xbb'' 3400000]
         else Inr [example_task ''0xcc'' 3458000]),
      getTransaction = (\<lambda>h. if h = ''0xbb'' then Inr \<lparr>tx_from = ''0x00d1''\<rparr>
                               else Inr \<lparr>tx_from = ''0xAbC1''\<rparr>)\<rparr>"

definition failing_client :: "task client" where
  "failing_client =
     \<lparr>getBlockNumber = Inr 3458672,
      getContractEvents = (\<lambda>q. if fromBlock q = 3358671
         then Inr [example_task ''0xaa'' 3358700]
         else Inl (Error ''HTTP request failed'')),
      getTransaction = (\<lambda>h. Inr \<lparr>tx_from = ''0xAbC1''\<rparr>)\<rparr>"

definition example_state :: "app_state \<times> hooks" where
  "example_state =
     (\<lparr>selectedPayloadHash = None, inputDetails = None, userAddress = ''0xaBc1'',
       tasks = [example_task ''0x99'' 3358690]\<rparr>,
      \<lparr>isLoading = False, error = Some ''HTTP request failed''\<rparr>)"

definition example_event :: event where
  "example_event =
     \<lparr>transactionHash = ''0xee'', blockNumber = 3390000,
      args = \<lparr>payloadHash = ''0x1234'', user = ''0xAbC1'', notice = ''0x00''\<rparr>\<rparr>"

definition example_event_client :: "event client" where
  "example_event_client =
     \<lparr>getBlockNumber = Inr 3400000,
      getContractEvents = (\<lambda>q. Inr [example_event]),
      getTransaction = (\<lambda>h. Inl NonError)\<rparr>"

definition example_senders :: "task \<Rightarrow> string" where
  "example_senders task = (if transactionHash task = ''0xbb'' then ''0x00d1'' else ''0xAbC1'')"

text \<open>
  An example library. Its \<^verbatim>\<open>hexToString\<close> and the encoder \<open>example_toHex\<close> compute as
  viem's \<^verbatim>\<open>hexToString\<close> and \<^verbatim>\<open>stringToHex\<close> do on strings of bytes: two hexadecimal
  digits per byte after \<^verbatim>\<open>0x\<close>, a leading \<^verbatim>\<open>0\<close> added to an odd number of digits, and
  a throw on a character that is not a hexadecimal digit. \<open>example_stringify\<close> writes
  an object of string fields as \<^verbatim>\<open>JSON.stringify\<close> does when no character needs an
  escape. The other functions are tables: they answer on the example payloads (the
  UTF-8 bytes of a JSON object with its Keccak-256 hash, and the ABI encoding of a
  notice with two classes and one probability) and throw elsewhere, with placeholder
  messages.
\<close>

definition byte_hex :: "char \<Rightarrow> string" where
  "byte_hex c =
     [''0123456789abcdef'' ! (of_char c div 16), ''0123456789abcdef'' ! (of_char c mod 16)]"

definition example_toHex :: "string \<Rightarrow> string" where
  "example_toHex s = ''0x'' @ concat (map byte_hex s)"

definition charCodeToBase16 :: "char \<Rightarrow> nat option" where
  "charCodeToBase16 c =
     map_of (zip ''0123456789abcdefABCDEF''
       [0, 1, 2, 3, 4, 5, 6, 7, 8, 9, 10, 11, 12, 13, 14, 15, 10, 11, 12, 13, 14, 15]) c"

fun hex_pairs :: "string \<Rightarrow> string option" where
  "hex_pairs [] = Some []"
| "hex_pairs [a] = None"
| "hex_pairs (a # b # rest) =
     (case (charCodeToBase16 a, charCodeToBase16 b) of
        (Some h, Some l) \<Rightarrow> map_option ((#) (char_of (h * 16 + l))) (hex_pairs rest)
      | _ \<Rightarrow> None)"

definition example_hexToString :: "string \<Rightarrow> thrown + string" where
  "example_hexToString hex =
     (let hexString = drop 2 hex;
          padded = (if odd (length hexString) then CHR ''0'' # hexString else hexString)
      in case hex_pairs padded of
           None \<Rightarrow> Inl (Error ''Invalid byte sequence'')
         | Some bytes \<Rightarrow> Inr bytes)"

definition quoted :: "string \<Rightarrow> string" where
  "quoted s = CHR 0x22 # s @ [CHR 0x22]"

fun example_field :: "string \<times> json \<Rightarrow> string" where
  "example_field (k, JString v) = quoted k @ '':'' @ quoted v"
| "example_field (k, v) = quoted k @ '':null''"

fun comma_separated :: "string list \<Rightarrow> string" where
  "comma_separated [] = []"
| "comma_separated [s] = s"
| "comma_separated (s # ss) = s @ '','' @ comma_separated ss"

fun example_stringify :: "json \<Rightarrow> string" where
  "example_stringify (JObject kvs) = ''{'' @ comma_separated (map example_field kvs) @ ''}''"
| "example_stringify v = ''null''"

definition example_input_text :: string where
  \<open>example_input_text = ''{"image":"aGk=","theme":"cat"}''\<close>

definition example_input_hex :: string where
  "example_input_hex = ''0x7b22696d616765223a2261476b3d222c227468656d65223a22636174227d''"

definition example_notice_hex :: string where
  "example_notice_hex = ''0x'' @
     ''000000000000000000000000000000000000000000000000000000000000005a'' @
     ''0000000000000000000000000000000000000000000000000000000000000080'' @
     ''00000000000000000000000000000000000000000000000000000000000000c0'' @
     ''00000000000000000000000000000000000000000000000000000000000001a0'' @
     ''0000000000000000000000000000000000000000000000000000000000000003'' @
     ''6361740000000000000000000000000000000000000000000000000000000000'' @
     ''0000000000000000000000000000000000000000000000000000000000000002'' @
     ''0000000000000000000000000000000000000000000000000000000000000040'' @
     ''0000000000000000000000000000000000000000000000000000000000000080'' @
     ''0000000000000000000000000000000000000000000000000000000000000003'' @
     ''6361740000000000000000000000000000000000000000000000000000000000'' @
     ''0000000000000000000000000000000000000000000000000000000000000003'' @
     ''646f670000000000000000000000000000000000000000000000000000000000'' @
     ''0000000000000000000000000000000000000000000000000000000000000001'' @
     ''000000000000000000000000000000000000000000000000000000000000005a''"

definition example_library :: library where
  "example_library =
     \<lparr>hexToString = example_hexToString,
      JSON_parse = (\<lambda>s. if s = example_input_text
                          then Inr (JObject [(''image'', JString ''aGk=''),
                                             (''theme'', JString ''cat'')])
                          else if s = ''null'' then Inr JNull
                          else Inl (Error ''Unexpected token'')),
      ToString = (\<lambda>v. Inr ''[object Object]''),
      Number_toString = (\<lambda>i. ''1e+21''),
      decodeAbiParameters = (\<lambda>h. if h = example_notice_hex
                          then Inr \<lparr>result = 90, theme = ''cat'',
                                    classes = [''cat'', ''dog''], probabilities = [90]\<rparr>
                          else Inl (Error ''Cannot decode'')),
      keccak256 = (\<lambda>h.
        ''0xa13be3978362166c97a9479d74127aa60ade36c56b98959631d2016aafc81042'')\<rparr>"

definition example_app :: app_state where
  "example_app =
     \<lparr>selectedPayloadHash = None, inputDetails = None, userAddress = ''0xaBc1'',
      tasks = [\<lparr>transactionHash = ''0xaa'', blockNumber = 3358700,
                args = \<lparr>machineHash = ''0x01'', input = example_input_hex,
                        callback = ''0x844E494489BEFC2baA9c6d168a659264a7779505''\<rparr>\<rparr>]\<rparr>"

section \<open>Properties of the pagination loop\<close>

subsection \<open>Block heights that doubles represent exactly\<close>

lemma bit_length_le: "n < 2 ^ k \<Longrightarrow> bit_length n \<le> k"
proof (induction k arbitrary: n)
  case 0
  then show ?case by (simp add: bit_length.simps)
next
  case (Suc k)
  show ?case
  proof (cases "n = 0")
    case True
    then show ?thesis by (simp add: bit_length.simps)
  next
    case False
    from Suc.prems have "n div 2 < 2 ^ k" by simp
    then have "bit_length (n div 2) \<le> k" by (rule Suc.IH)
    with False show ?thesis by (subst bit_length.simps) simp
  qed
qed

lemma round_to_double_safe: "n < 2 ^ 53 \<Longrightarrow> round_to_double n = n"
  by (simp add: round_to_double_def bit_length_le)

lemma toNumber_safe:
  assumes "\<bar>i\<bar> \<le> MAX_SAFE_INTEGER"
  shows "toNumber i = Num i"
proof -
  from assms have lt: "nat \<bar>i\<bar> < 2 ^ 53"
    by (simp add: MAX_SAFE_INTEGER_def nat_less_iff)
  have "(2::nat) ^ 53 < 2 ^ 1024" by simp
  with lt have "\<not> 2 ^ 1024 \<le> nat \<bar>i\<bar>" by linarith
  with lt show ?thesis
    by (simp add: toNumber_def round_to_double_safe Let_def)
qed

lemma currentToBlock_safe:
  assumes "- MAX_SAFE_INTEGER \<le> a" "a \<le> b" "0 \<le> maxSpan" "b + maxSpan \<le> MAX_SAFE_INTEGER"
  shows "toBigInt (Math_min (toNumber (a + maxSpan)) (toNumber b)) = Inr (min (a + maxSpan) b)"
proof -
  have "\<bar>a + maxSpan\<bar> \<le> MAX_SAFE_INTEGER" "\<bar>b\<bar> \<le> MAX_SAFE_INTEGER"
    using assms by linarith+
  then show ?thesis by (simp add: toNumber_safe)
qed

lemma count_step:
  assumes "0 \<le> (m::int)"
  shows "(x + 1 + m) div (m + 1) = x div (m + 1) + 1"
proof -
  have eq: "x + 1 + m = x + (m + 1)" by simp
  have "m + 1 \<noteq> 0" using assms by simp
  then show ?thesis unfolding eq by (rule div_add_self2)
qed

lemma paginate_loop_safe:
  assumes "0 \<le> maxSpan" "tip + maxSpan \<le> MAX_SAFE_INTEGER"
  shows "a \<le> tip \<Longrightarrow> - MAX_SAFE_INTEGER \<le> a \<Longrightarrow>
     \<exists>rs. paginate_loop (\<lambda>f t. Inr (g f t)) maxSpan tip a calls acc =
             Some (calls @ rs, Inr (acc @ concat (map (\<lambda>(f, t). g f t) rs)))
        \<and> tiles maxSpan tip a rs
        \<and> int (length rs) = (tip - a + 1 + maxSpan) div (maxSpan + 1)"
proof (induction "nat (tip - a)" arbitrary: a calls acc rule: less_induct)
  case less
  let ?t = "min (a + maxSpan) tip"
  have to: "toBigInt (Math_min (toNumber (a + maxSpan)) (toNumber tip)) = Inr ?t"
    using less.prems assms by (simp add: currentToBlock_safe)
  show ?case
  proof (cases "?t = tip")
    case True
    have run: "paginate_loop (\<lambda>f t. Inr (g f t)) maxSpan tip a calls acc =
          Some (calls @ [(a, ?t)], Inr (acc @ g a ?t))"
      using less.prems True by (subst paginate_loop.simps) (simp add: to)
    have "tip - a \<le> maxSpan" using True by linarith
    then have "(tip - a) div (maxSpan + 1) = 0"
      using less.prems by (simp add: div_pos_pos_trivial)
    then have "(tip - a + 1 + maxSpan) div (maxSpan + 1) = 1"
      using assms by (simp add: count_step)
    with run True less.prems assms show ?thesis
      by (intro exI [of _ "[(a, ?t)]"]) simp
  next
    case False
    then have t: "?t = a + maxSpan" and lt: "a + maxSpan < tip" by linarith+
    have step: "paginate_loop (\<lambda>f t. Inr (g f t)) maxSpan tip a calls acc =
          paginate_loop (\<lambda>f t. Inr (g f t)) maxSpan tip (a + maxSpan + 1)
            (calls @ [(a, a + maxSpan)]) (acc @ g a (a + maxSpan))"
      using less.prems lt by (subst paginate_loop.simps) (simp add: to)
    have "nat (tip - (a + maxSpan + 1)) < nat (tip - a)"
      using lt assms by linarith
    moreover have "a + maxSpan + 1 \<le> tip" "- MAX_SAFE_INTEGER \<le> a + maxSpan + 1"
      using lt assms less.prems by linarith+
    ultimately obtain rs where
      rs: "paginate_loop (\<lambda>f t. Inr (g f t)) maxSpan tip (a + maxSpan + 1)
              (calls @ [(a, a + maxSpan)]) (acc @ g a (a + maxSpan)) =
            Some ((calls @ [(a, a + maxSpan)]) @ rs,
                  Inr ((acc @ g a (a + maxSpan)) @ concat (map (\<lambda>(f, t). g f t) rs)))"
      and tl: "tiles maxSpan tip (a + maxSpan + 1) rs"
      and len: "int (length rs) = (tip - (a + maxSpan + 1) + 1 + maxSpan) div (maxSpan + 1)"
      using less.hyps [of "a + maxSpan + 1"] by blast
    have "(tip - a + 1 + maxSpan) div (maxSpan + 1) = (tip - a) div (maxSpan + 1) + 1"
      using assms by (simp add: count_step)
    with len have len': "int (length ((a, a + maxSpan) # rs)) = (tip - a + 1 + maxSpan) div (maxSpan + 1)"
      by simp
    have "tiles maxSpan tip a ((a, a + maxSpan) # rs)"
      using tl lt assms by simp
    with step rs len' show ?thesis
      by (intro exI [of _ "(a, a + maxSpan) # rs"]) simp
  qed
qed

lemma ceiling_div: 
  assumes "0 < (b::int)"
  shows "\<lceil>real_of_int a / real_of_int b\<rceil> = (a + b - 1) div b"
proof -
  have "\<lceil>real_of_int a / real_of_int b\<rceil> = - (- a div b)"
    by (rule ceiling_divide_eq_div)
  also have "- (- a div b) = (a + b - 1) div b"
  proof -
    define q where "q = (a + b - 1) div b"
    define r where "r = (a + b - 1) mod b"
    have r: "0 \<le> r" "r < b" using assms by (simp_all add: r_def)
    have "a + b - 1 = q * b + r" by (simp add: q_def r_def)
    then have eq: "- a = (b - 1 - r) + (- q) * b" by (simp add: algebra_simps)
    have "b \<noteq> 0" using assms by simp
    then have "((b - 1 - r) + (- q) * b) div b = (- q) + (b - 1 - r) div b"
      by (rule div_mult_self1)
    moreover have "(b - 1 - r) div b = 0" using r by (simp add: div_pos_pos_trivial)
    ultimately have "- a div b = - q" by (simp only: eq add_0_right)
    then show ?thesis by (simp add: q_def)
  qed
  finally show ?thesis .
qed

subsection \<open>Tilings\<close>

lemma tiles_Cons:
  assumes "tiles maxSpan tip a (r # rs)"
  shows "fst r = a" "snd r = min (a + maxSpan) tip" "a \<le> snd r" "tiles maxSpan tip (snd r + 1) rs"
  using assms by (cases r, simp)+

lemma tiles_bounds:
  "tiles maxSpan tip a rs \<Longrightarrow> r \<in> set rs \<Longrightarrow>
     a \<le> fst r \<and> fst r \<le> snd r \<and> snd r \<le> tip \<and> snd r = min (fst r + maxSpan) tip"
proof (induction rs arbitrary: a)
  case Nil
  then show ?case by simp
next
  case (Cons x rs)
  note hd = tiles_Cons [OF Cons.prems(1)]
  show ?case
  proof (cases "r = x")
    case True
    with hd(1,2,3) show ?thesis by simp
  next
    case False
    with Cons.prems(2) have "r \<in> set rs" by simp
    from Cons.IH [OF hd(4) this]
    have ih: "snd x + 1 \<le> fst r" "fst r \<le> snd r" "snd r \<le> tip"
      "snd r = min (fst r + maxSpan) tip" by blast+
    from ih(1) hd(3) have "a \<le> fst r" by linarith
    with ih(2,3,4) show ?thesis by blast
  qed
qed

lemma tiles_union:
  "tiles maxSpan tip a rs \<Longrightarrow> a \<le> tip + 1 \<Longrightarrow> (\<Union>r\<in>set rs. {fst r..snd r}) = {a..tip}"
proof (induction rs arbitrary: a)
  case Nil
  then show ?case by simp
next
  case (Cons x rs)
  note hd = tiles_Cons [OF Cons.prems(1)]
  from hd(2) have le: "snd x \<le> tip" by simp
  then have "snd x + 1 \<le> tip + 1" by simp
  from Cons.IH [OF hd(4) this]
  have "(\<Union>r\<in>set rs. {fst r..snd r}) = {snd x + 1..tip}" .
  then have "(\<Union>r\<in>set (x # rs). {fst r..snd r}) = {a..snd x} \<union> {snd x + 1..tip}"
    by (simp add: hd(1))
  also have "\<dots> = {a..tip}"
    using hd(3) le by (intro set_eqI iffI; simp; linarith)
  finally show ?case .
qed

lemma tiles_disjoint:
  "tiles maxSpan tip a rs \<Longrightarrow> sorted_wrt (\<lambda>r r'. snd r < fst r') rs"
proof (induction rs arbitrary: a)
  case Nil
  then show ?case by simp
next
  case (Cons x rs)
  note hd = tiles_Cons [OF Cons.prems(1)]
  have "\<forall>r\<in>set rs. snd x < fst r"
  proof
    fix r assume "r \<in> set rs"
    from tiles_bounds [OF hd(4) this] show "snd x < fst r" by simp
  qed
  with Cons.IH [OF hd(4)] show ?case by simp
qed


subsection \<open>Coverage and order\<close>

text \<open>
  Claim C1, for block heights that doubles represent exactly. For every
  \<open>start \<le> tip\<close> and \<open>maxSpan > 0\<close> with \<open>start \<ge> - MAX_SAFE_INTEGER\<close> and
  \<open>tip + maxSpan \<le> MAX_SAFE_INTEGER\<close>, the pagination loop returns. The sub-ranges
  \<open>rs\<close> it fetched start at \<open>start\<close>, each ends at \<open>min (from + maxSpan) tip\<close>, each
  begins one block after the previous one ended, and the last one ends at \<open>tip\<close>
  (\<open>tiles\<close>); they are pairwise disjoint and in ascending order, and their union is
  exactly the blocks from \<open>start\<close> to \<open>tip\<close>. The result is the concatenation of the
  fetched batches in the order of the sub-ranges, as fetched and not sorted again. (The
  fetch function answers \<open>g from to\<close> and does not throw; what happens when it
  throws is claim C4.)
\<close>

theorem paginate_covers_in_order:
  assumes "start \<le> tip" and "0 < maxSpan"
    and "- MAX_SAFE_INTEGER \<le> start" and "tip + maxSpan \<le> MAX_SAFE_INTEGER"
  shows "\<exists>rs. paginate (\<lambda>f t. Inr (g f t)) start tip maxSpan =
                 Some (rs, Inr (concat (map (\<lambda>(f, t). g f t) rs)))
            \<and> tiles maxSpan tip start rs
            \<and> (\<forall>r\<in>set rs. snd r = min (fst r + maxSpan) tip)
            \<and> sorted_wrt (\<lambda>r r'. snd r < fst r') rs
            \<and> (\<Union>r\<in>set rs. {fst r..snd r}) = {start..tip}"
proof -
  from assms have "0 \<le> maxSpan" by simp
  from paginate_loop_safe [OF this assms(4) assms(1) assms(3), of g "[]" "[]"]
  obtain rs where run: "paginate (\<lambda>f t. Inr (g f t)) start tip maxSpan =
                 Some (rs, Inr (concat (map (\<lambda>(f, t). g f t) rs)))"
    and tl: "tiles maxSpan tip start rs"
    by (auto simp add: paginate_def)
  have "\<forall>r\<in>set rs. snd r = min (fst r + maxSpan) tip"
    using tiles_bounds [OF tl] by blast
  moreover have "sorted_wrt (\<lambda>r r'. snd r < fst r') rs"
    using tl by (rule tiles_disjoint)
  moreover have "(\<Union>r\<in>set rs. {fst r..snd r}) = {start..tip}"
    using tl assms(1) by (intro tiles_union) simp_all
  ultimately show ?thesis using run tl by blast
qed

theorem paginate_covers_in_order_witness:
  "(3358671::int) \<le> 3458672 \<and> (0::int) < 50000 \<and> - MAX_SAFE_INTEGER \<le> 3358671
   \<and> 3458672 + 50000 \<le> MAX_SAFE_INTEGER
   \<and> (\<exists>rs. paginate (\<lambda>f t. Inr [(f, t)]) 3358671 3458672 50000 =
                 Some (rs, Inr (concat (map (\<lambda>(f, t). [(f, t)]) rs)))
            \<and> tiles 50000 3458672 3358671 rs
            \<and> (\<forall>r\<in>set rs. snd r = min (fst r + 50000) 3458672)
            \<and> sorted_wrt (\<lambda>r r'. snd r < fst r') rs
            \<and> (\<Union>r\<in>set rs. {fst r..snd r}) = {3358671..3458672})"
proof -
  have h: "(3358671::int) \<le> 3458672" "(0::int) < 50000" "- MAX_SAFE_INTEGER \<le> 3358671"
    "3458672 + 50000 \<le> MAX_SAFE_INTEGER"
    by (simp_all add: MAX_SAFE_INTEGER_def)
  from paginate_covers_in_order [OF h, of "\<lambda>f t. [(f, t)]"] h show ?thesis by blast
qed

text \<open>
  Beyond \<open>2^53\<close> the conversion through \<^verbatim>\<open>Number\<close> rounds. With \<open>start = 2^53\<close>,
  \<open>tip = 2^53 + 3\<close> and \<open>maxSpan = 1\<close>, \<^verbatim>\<open>Number(tip)\<close> is \<open>2^53 + 4\<close>: the last
  sub-range fetched is \<open>[2^53 + 3, 2^53 + 4]\<close>, which does not end at
  \<open>min (from + maxSpan) tip\<close> and reaches a block beyond \<open>tip\<close>.
\<close>

theorem paginate_overshoot_counterexample:
  "paginate echo_fetch 9007199254740992 9007199254740995 1 =
     Some ([(9007199254740992, 9007199254740992), (9007199254740993, 9007199254740994),
            (9007199254740995, 9007199254740996)],
           Inr [(9007199254740992, 9007199254740992), (9007199254740993, 9007199254740994),
                (9007199254740995, 9007199254740996)])
   \<and> (9007199254740996::int) \<noteq> min (9007199254740995 + 1) 9007199254740995
   \<and> (9007199254740996::int) \<notin> {9007199254740992..9007199254740995}"
  by (simp add: paginate_def paginate_loop.simps toNumber_def round_to_double_def
      bit_length.simps Let_def echo_fetch_def)

subsection \<open>The number of sub-ranges\<close>

text \<open>
  Claim C2, for block heights that doubles represent exactly. For every
  \<open>start \<le> tip\<close> and \<open>maxSpan > 0\<close> with \<open>start \<ge> - MAX_SAFE_INTEGER\<close> and
  \<open>tip + maxSpan \<le> MAX_SAFE_INTEGER\<close>, the loop returns after fetching
  \<open>\<lceil>(tip - start + 1) / (maxSpan + 1)\<rceil>\<close> sub-ranges (with a fetch function that
  does not throw). For \<open>start > tip\<close>, whatever the fetch function and the heights,
  no sub-range is fetched and the result is empty.
\<close>

theorem paginate_count:
  "(start \<le> tip \<and> 0 < maxSpan \<and> - MAX_SAFE_INTEGER \<le> start
      \<and> tip + maxSpan \<le> MAX_SAFE_INTEGER \<longrightarrow>
      (\<exists>rs xs. paginate (\<lambda>f t. Inr (g f t)) start tip maxSpan = Some (rs, Inr xs)
         \<and> int (length rs) = \<lceil>real_of_int (tip - start + 1) / real_of_int (maxSpan + 1)\<rceil>))
   \<and> (tip < start \<longrightarrow> paginate fetch start tip maxSpan = Some ([], Inr []))"
proof (intro conjI impI)
  assume a: "start \<le> tip \<and> 0 < maxSpan \<and> - MAX_SAFE_INTEGER \<le> start
      \<and> tip + maxSpan \<le> MAX_SAFE_INTEGER"
  then have "0 \<le> maxSpan" "tip + maxSpan \<le> MAX_SAFE_INTEGER" "start \<le> tip"
    "- MAX_SAFE_INTEGER \<le> start" by simp_all
  from paginate_loop_safe [OF this, of g "[]" "[]"]
  obtain rs where run: "paginate (\<lambda>f t. Inr (g f t)) start tip maxSpan =
                 Some (rs, Inr (concat (map (\<lambda>(f, t). g f t) rs)))"
    and len: "int (length rs) = (tip - start + 1 + maxSpan) div (maxSpan + 1)"
    by (auto simp add: paginate_def)
  from a have "0 < maxSpan + 1" by simp
  have "tip - start + 1 + (maxSpan + 1) - 1 = tip - start + 1 + maxSpan" by simp
  with ceiling_div [OF \<open>0 < maxSpan + 1\<close>, of "tip - start + 1"]
  have "\<lceil>real_of_int (tip - start + 1) / real_of_int (maxSpan + 1)\<rceil> =
        (tip - start + 1 + maxSpan) div (maxSpan + 1)" by (simp only:)
  with len run show "\<exists>rs xs. paginate (\<lambda>f t. Inr (g f t)) start tip maxSpan = Some (rs, Inr xs)
         \<and> int (length rs) = \<lceil>real_of_int (tip - start + 1) / real_of_int (maxSpan + 1)\<rceil>"
    by auto
next
  assume "tip < start"
  then show "paginate fetch start tip maxSpan = Some ([], Inr [])"
    by (simp add: paginate_def paginate_loop.simps)
qed

theorem paginate_count_witness:
  "((3358671::int) \<le> 3458673 \<and> (0::int) < 50000 \<and> - MAX_SAFE_INTEGER \<le> 3358671
      \<and> 3458673 + 50000 \<le> MAX_SAFE_INTEGER)
   \<and> (\<exists>rs xs. paginate echo_fetch 3358671 3458673 50000 = Some (rs, Inr xs)
         \<and> int (length rs) = 3)
   \<and> (3358671::int) < 3358672
   \<and> paginate echo_fetch 3358672 3358671 50000 = Some ([], Inr [])"
proof -
  have h: "(3358671::int) \<le> 3458673 \<and> (0::int) < 50000 \<and> - MAX_SAFE_INTEGER \<le> 3358671
      \<and> 3458673 + 50000 \<le> MAX_SAFE_INTEGER"
    by (simp add: MAX_SAFE_INTEGER_def)
  have c: "\<lceil>real_of_int (3458673 - 3358671 + 1) / real_of_int (50000 + 1)\<rceil> = 3"
    by (simp add: ceiling_div)
  have e: "echo_fetch = (\<lambda>f t. Inr [(f, t)])"
    by (simp add: echo_fetch_def fun_eq_iff)
  have lt: "(3358671::int) < 3358672" by simp
  from paginate_count [of 3358671 3458673 50000 "\<lambda>f t. [(f, t)]"] h c
  have "\<exists>rs xs. paginate echo_fetch 3358671 3458673 50000 = Some (rs, Inr xs)
         \<and> int (length rs) = 3"
    unfolding e by simp
  moreover from paginate_count [of 3358672 3358671 50000 "\<lambda>f t. [(f, t)]" echo_fetch] lt
  have "paginate echo_fetch 3358672 3358671 50000 = Some ([], Inr [])" by simp
  ultimately show ?thesis using h lt by blast
qed

text \<open>
  With \<open>start = 2^53\<close>, \<open>tip = 2^53 + 7\<close> and \<open>maxSpan = 1\<close> the loop fetches five
  sub-ranges, \<open>[2^53, 2^53]\<close>, \<open>[2^53 + 1, 2^53 + 2]\<close>, \<open>[2^53 + 3, 2^53 + 4]\<close>,
  \<open>[2^53 + 5, 2^53 + 6]\<close> and \<open>[2^53 + 7, 2^53 + 8]\<close>, where the formula gives four.
\<close>

theorem paginate_count_counterexample:
  "map_option (length \<circ> fst) (paginate echo_fetch 9007199254740992 9007199254740999 1) = Some 5
   \<and> \<lceil>real_of_int (9007199254740999 - 9007199254740992 + 1) / real_of_int (1 + 1)\<rceil> = 4"
  by (simp add: paginate_def paginate_loop.simps toNumber_def round_to_double_def
      bit_length.simps Let_def echo_fetch_def ceiling_div)

subsection \<open>The constants of the repository, beyond \<open>2^53\<close>\<close>

text \<open>
  With the start block and \<^verbatim>\<open>BLOCK_RANGE\<close> of \<^verbatim>\<open>fetchAllTasks\<close>, a fetch function that
  never throws and the tip \<open>2^53 + 1\<close>, the loop never returns: \<^verbatim>\<open>Number(latestBlock)\<close>
  is \<open>2^53\<close>, so no sub-range ends at the tip, and \<^verbatim>\<open>currentFromBlock\<close> never passes
  it. The invariant is proved by induction over the definition of the loop.
\<close>

lemma toNumber_nonneg:
  assumes "0 \<le> i"
  shows "toNumber i = PosInfinity \<or> (\<exists>v\<ge>0. toNumber i = Num v)"
  using assms by (simp add: toNumber_def Let_def)

lemma Math_min_le:
  assumes "x = PosInfinity \<or> (\<exists>v\<ge>0. x = Num v)" and "0 \<le> c"
  shows "\<exists>t. toBigInt (Math_min x (Num c)) = Inr t \<and> 0 \<le> t \<and> t \<le> c"
  using assms by auto

lemma toNumber_odd_tip: "toNumber 9007199254740993 = Num 9007199254740992"
  by (simp add: toNumber_def round_to_double_def bit_length.simps Let_def)

lemma paginate_loop_spins:
  assumes "paginate_loop fetch maxSpan tip a calls acc = Some y"
  shows "\<not> ((\<forall>f t. \<exists>xs. fetch f t = Inr xs) \<and> tip = 9007199254740993 \<and> 0 \<le> maxSpan
            \<and> 0 \<le> a \<and> a \<le> tip)"
proof (rule paginate_loop.raw_induct
    [where P = "\<lambda>fetch maxSpan tip a calls acc y.
        \<not> ((\<forall>f t. \<exists>xs. fetch f t = Inr xs) \<and> tip = 9007199254740993 \<and> 0 \<le> maxSpan
            \<and> 0 \<le> a \<and> a \<le> tip)",
     OF _ assms], goal_cases)
  case (1 loop fetch maxSpan tip a calls acc y)
  show ?case
  proof
    assume inv: "(\<forall>f t. \<exists>xs. fetch f t = Inr xs) \<and> tip = 9007199254740993 \<and> 0 \<le> maxSpan
            \<and> 0 \<le> a \<and> a \<le> tip"
    then have tip: "tip = 9007199254740993" and a: "0 \<le> a" "a \<le> tip" and m: "0 \<le> maxSpan"
      by simp_all
    from a m have "0 \<le> a + maxSpan" by simp
    from Math_min_le [OF toNumber_nonneg [OF this], of 9007199254740992]
    obtain t where t: "toBigInt (Math_min (toNumber (a + maxSpan)) (toNumber tip)) = Inr t"
      and t0: "0 \<le> t" and t1: "t \<le> 9007199254740992"
      unfolding tip toNumber_odd_tip by auto
    from inv obtain xs where xs: "fetch a t = Inr xs" by blast
    from t1 tip have ne: "t \<noteq> tip" by simp
    from 1(2) a t xs ne
    have "loop fetch maxSpan tip (t + 1) (calls @ [(a, t)]) (acc @ xs) = Some y" by simp
    from 1(1) [OF this] inv t0 t1 show False by simp
  qed
qed

lemma fetchAll_never_returns:
  "paginate echo_fetch 3358671 9007199254740993 BLOCK_RANGE = None"
proof (cases "paginate echo_fetch 3358671 9007199254740993 BLOCK_RANGE")
  case None
  then show ?thesis .
next
  case (Some y)
  then have "paginate_loop echo_fetch BLOCK_RANGE 9007199254740993 3358671 [] [] = Some y"
    by (simp add: paginate_def)
  from paginate_loop_spins [OF this] show ?thesis
    by (simp add: echo_fetch_def BLOCK_RANGE_def)
qed


section \<open>Failure of a fetch\<close>

text \<open>
  An invariant of the loop, whatever the block heights: if every call recorded so far
  succeeded, then in the calls of a run that returns every call but the last
  succeeded, and a call that failed decides the outcome.
\<close>

lemma paginate_loop_fail_fast:
  assumes "paginate_loop fetch maxSpan tip a calls acc = Some y"
  shows "(\<forall>c\<in>set calls. \<exists>xs. fetch (fst c) (snd c) = Inr xs) \<longrightarrow>
         (\<forall>c\<in>set (butlast (fst y)). \<exists>xs. fetch (fst c) (snd c) = Inr xs)
       \<and> (\<forall>c\<in>set (fst y). \<forall>e. fetch (fst c) (snd c) = Inl e \<longrightarrow> snd y = Inl e)"
proof (rule paginate_loop.raw_induct
    [where P = "\<lambda>fetch maxSpan tip a calls acc y.
         (\<forall>c\<in>set calls. \<exists>xs. fetch (fst c) (snd c) = Inr xs) \<longrightarrow>
         (\<forall>c\<in>set (butlast (fst y)). \<exists>xs. fetch (fst c) (snd c) = Inr xs)
       \<and> (\<forall>c\<in>set (fst y). \<forall>e. fetch (fst c) (snd c) = Inl e \<longrightarrow> snd y = Inl e)",
     OF _ assms], goal_cases)
  case (1 loop fetch maxSpan tip a calls acc y)
  show ?case
  proof
    assume ok: "\<forall>c\<in>set calls. \<exists>xs. fetch (fst c) (snd c) = Inr xs"
    then have bl: "\<forall>c\<in>set (butlast calls). \<exists>xs. fetch (fst c) (snd c) = Inr xs"
      by (blast dest: in_set_butlastD)
    show "(\<forall>c\<in>set (butlast (fst y)). \<exists>xs. fetch (fst c) (snd c) = Inr xs)
       \<and> (\<forall>c\<in>set (fst y). \<forall>e. fetch (fst c) (snd c) = Inl e \<longrightarrow> snd y = Inl e)"
    proof (cases "a \<le> tip")
      case False
      with 1(2) have "y = (calls, Inr acc)" by simp
      with ok bl show ?thesis by auto
    next
      case True
      show ?thesis
      proof (cases "toBigInt (Math_min (toNumber (a + maxSpan)) (toNumber tip))")
        case (Inl err)
        with 1(2) True have "y = (calls, Inl err)" by simp
        with ok bl show ?thesis by auto
      next
        case (Inr to)
        show ?thesis
        proof (cases "fetch a to")
          case (Inl err)
          with 1(2) True Inr have "y = (calls @ [(a, to)], Inl err)" by simp
          with ok Inl show ?thesis by auto
        next
          case batch: (Inr batchTasks)
          then have ok': "\<forall>c\<in>set (calls @ [(a, to)]). \<exists>xs. fetch (fst c) (snd c) = Inr xs"
            using ok by auto
          show ?thesis
          proof (cases "to = tip")
            case True
            with 1(2) \<open>a \<le> tip\<close> Inr batch
            have "y = (calls @ [(a, to)], Inr (acc @ batchTasks))" by simp
            with ok ok' show ?thesis by auto
          next
            case False
            with 1(2) \<open>a \<le> tip\<close> Inr batch
            have "loop fetch maxSpan tip (to + 1) (calls @ [(a, to)]) (acc @ batchTasks) = Some y"
              by simp
            from 1(1) [OF this] ok' show ?thesis by blast
          qed
        qed
      qed
    qed
  qed
qed

lemma last_of_failing:
  assumes "x \<in> set xs" "x \<notin> set (butlast xs)"
  shows "last xs = x"
proof -
  from assms(1) have "xs \<noteq> []" by auto
  then have "xs = butlast xs @ [last xs]" by simp
  then have "set xs = set (butlast xs) \<union> {last xs}"
    by (metis set_append list.set(1) list.set(2))
  with assms show ?thesis by auto
qed

text \<open>Within the range of exact doubles the loop returns, whatever the fetch function does.\<close>

lemma paginate_loop_returns:
  assumes "0 \<le> maxSpan" "tip + maxSpan \<le> MAX_SAFE_INTEGER"
  shows "- MAX_SAFE_INTEGER \<le> a \<Longrightarrow>
     \<exists>y. paginate_loop fetch maxSpan tip a calls acc = Some y"
proof (induction "nat (tip + 1 - a)" arbitrary: a calls acc rule: less_induct)
  case less
  show ?case
  proof (cases "a \<le> tip")
    case False
    then show ?thesis by (subst paginate_loop.simps) simp
  next
    case True
    let ?t = "min (a + maxSpan) tip"
    have to: "toBigInt (Math_min (toNumber (a + maxSpan)) (toNumber tip)) = Inr ?t"
      using less.prems True assms by (simp add: currentToBlock_safe)
    show ?thesis
    proof (cases "fetch a ?t")
      case (Inl err)
      with True to show ?thesis by (subst paginate_loop.simps) simp
    next
      case (Inr batch)
      show ?thesis
      proof (cases "?t = tip")
        case True
        with \<open>a \<le> tip\<close> to Inr show ?thesis by (subst paginate_loop.simps) simp
      next
        case False
        have "nat (tip + 1 - (?t + 1)) < nat (tip + 1 - a)" "- MAX_SAFE_INTEGER \<le> ?t + 1"
          using True assms less.prems by linarith+
        from less.hyps [OF this]
        obtain y where "paginate_loop fetch maxSpan tip (?t + 1) (calls @ [(a, ?t)]) (acc @ batch)
            = Some y" by blast
        with \<open>a \<le> tip\<close> to Inr False show ?thesis by (subst paginate_loop.simps) simp
      qed
    qed
  qed
qed

text \<open>
  The failing step, whatever the block heights: when the fetch function throws, the
  loop returns at once, with the failing call as the last call and the thrown value in
  place of the batches collected so far. On the range of exact doubles this gives the
  whole run: the loop makes the calls of the tiling up to the first one that throws,
  and returns its thrown value.
\<close>

lemma paginate_loop_failing_step:
  assumes "a \<le> tip"
    and "toBigInt (Math_min (toNumber (a + maxSpan)) (toNumber tip)) = Inr t"
    and "fetch a t = Inl e"
  shows "paginate_loop fetch maxSpan tip a calls acc = Some (calls @ [(a, t)], Inl e)"
  using assms by (subst paginate_loop.simps) simp

lemma tiles_past_tip: "tiles maxSpan tip (tip + 1) rs \<Longrightarrow> rs = []"
proof (cases rs)
  case Nil
  then show ?thesis by simp
next
  case (Cons r rs')
  assume "tiles maxSpan tip (tip + 1) rs"
  with Cons have t: "tiles maxSpan tip (tip + 1) (r # rs')" by simp
  from tiles_Cons(2,3) [OF t] have "tip + 1 \<le> tip" by linarith
  then show ?thesis by simp
qed

lemma paginate_loop_first_failure:
  assumes "0 \<le> maxSpan" "tip + maxSpan \<le> MAX_SAFE_INTEGER"
  shows "- MAX_SAFE_INTEGER \<le> a \<Longrightarrow> tiles maxSpan tip a rs \<Longrightarrow> k < length rs \<Longrightarrow>
     fetch (fst (rs ! k)) (snd (rs ! k)) = Inl e \<Longrightarrow>
     (\<forall>i<k. \<exists>xs. fetch (fst (rs ! i)) (snd (rs ! i)) = Inr xs) \<Longrightarrow>
     paginate_loop fetch maxSpan tip a calls acc = Some (calls @ take (Suc k) rs, Inl e)"
proof (induction rs arbitrary: a k calls acc)
  case Nil
  then show ?case by simp
next
  case (Cons r rs)
  note hd = tiles_Cons [OF Cons.prems(2)]
  from hd(2) have le: "snd r \<le> tip" by simp
  with hd(3) have a: "a \<le> tip" by linarith
  have to: "toBigInt (Math_min (toNumber (a + maxSpan)) (toNumber tip)) = Inr (snd r)"
    using Cons.prems(1) a assms hd(2) by (simp add: currentToBlock_safe)
  have r: "r = (a, snd r)" using hd(1) by (cases r) simp
  show ?case
  proof (cases k)
    case 0
    with Cons.prems(4) hd(1) have "fetch a (snd r) = Inl e" by simp
    from paginate_loop_failing_step
      [where fetch = fetch and calls = calls and acc = acc, OF a to this] r 0
    show ?thesis by simp
  next
    case (Suc k')
    with Cons.prems(5) have "\<exists>xs. fetch (fst ((r # rs) ! 0)) (snd ((r # rs) ! 0)) = Inr xs"
      by blast
    with hd(1) obtain xs where xs: "fetch a (snd r) = Inr xs" by auto
    from Suc Cons.prems(3) have k': "k' < length rs" by simp
    have ne: "snd r \<noteq> tip"
    proof
      assume "snd r = tip"
      with hd(4) have "rs = []" by (simp add: tiles_past_tip)
      with k' show False by simp
    qed
    have step: "paginate_loop fetch maxSpan tip a calls acc =
          paginate_loop fetch maxSpan tip (snd r + 1) (calls @ [(a, snd r)]) (acc @ xs)"
      using a to xs ne by (subst paginate_loop.simps) simp
    have low: "- MAX_SAFE_INTEGER \<le> snd r + 1" using Cons.prems(1) hd(3) by linarith
    have fails: "fetch (fst (rs ! k')) (snd (rs ! k')) = Inl e"
      using Cons.prems(4) Suc by simp
    have before: "\<forall>i<k'. \<exists>xs. fetch (fst (rs ! i)) (snd (rs ! i)) = Inr xs"
    proof (intro allI impI)
      fix i assume "i < k'"
      then have "Suc i < k" using Suc by simp
      with Cons.prems(5) have "\<exists>xs. fetch (fst ((r # rs) ! Suc i)) (snd ((r # rs) ! Suc i)) = Inr xs"
        by blast
      then show "\<exists>xs. fetch (fst (rs ! i)) (snd (rs ! i)) = Inr xs" by simp
    qed
    from Cons.IH [OF low hd(4) k' fails before, of "calls @ [(a, snd r)]" "acc @ xs"]
    have "paginate_loop fetch maxSpan tip (snd r + 1) (calls @ [(a, snd r)]) (acc @ xs) =
        Some ((calls @ [(a, snd r)]) @ take (Suc k') rs, Inl e)" .
    with step r Suc show ?thesis by (metis append.assoc append_Cons append_Nil take_Suc_Cons)
  qed
qed

lemma first_failing_index:
  assumes "r \<in> set rs" and "fetch (fst r) (snd r) = Inl e0"
  shows "\<exists>k e. k < length rs \<and> fetch (fst (rs ! k)) (snd (rs ! k)) = Inl e
           \<and> (\<forall>i<k. \<exists>xs. fetch (fst (rs ! i)) (snd (rs ! i)) = Inr xs)"
proof -
  let ?P = "\<lambda>j. j < length rs \<and> (\<exists>e. fetch (fst (rs ! j)) (snd (rs ! j)) = Inl e)"
  from assms obtain j where "?P j" by (auto simp add: in_set_conv_nth)
  then have "\<exists>k. ?P k \<and> (\<forall>m<k. \<not> ?P m)"
    using exists_least_iff [of ?P] by blast
  then obtain k where k: "?P k" and least: "\<forall>m<k. \<not> ?P m" by blast
  from k obtain e where e: "fetch (fst (rs ! k)) (snd (rs ! k)) = Inl e" by blast
  have "\<forall>i<k. \<exists>xs. fetch (fst (rs ! i)) (snd (rs ! i)) = Inr xs"
  proof (intro allI impI)
    fix i assume i: "i < k"
    with k have "i < length rs" by simp
    with least i have "\<not> (\<exists>e. fetch (fst (rs ! i)) (snd (rs ! i)) = Inl e)" by blast
    then show "\<exists>xs. fetch (fst (rs ! i)) (snd (rs ! i)) = Inr xs"
      by (cases "fetch (fst (rs ! i)) (snd (rs ! i))") auto
  qed
  with k e show ?thesis by blast
qed

section \<open>The fetch operations\<close>

subsection \<open>Effects and final state\<close>

lemma fold_rpcs:
  "\<forall>e\<in>set es. is_rpc e \<Longrightarrow> fold apply_effect es s = s"
proof (induction es)
  case Nil
  then show ?case by simp
next
  case (Cons e es)
  obtain app h where s: "s = (app, h)" by (cases s)
  from Cons.prems have "is_rpc e" by simp
  then have "apply_effect e (app, h) = (app, h)" by (cases e) simp_all
  with Cons show ?case by (simp add: s)
qed

lemma fold_rpcs_events:
  "\<forall>e\<in>set es. is_rpc e \<Longrightarrow> fold apply_effect_events es s = s"
proof (induction es)
  case Nil
  then show ?case by simp
next
  case (Cons e es)
  obtain evs h where s: "s = (evs, h)" by (cases s)
  from Cons.prems have "is_rpc e" by simp
  then have "apply_effect_events e (evs, h) = (evs, h)" by (cases e) simp_all
  with Cons show ?case by (simp add: s)
qed

lemma fetchAllTasks_rpcs:
  "fetchAllTasks client = Some (rpcs, res) \<Longrightarrow> \<forall>e\<in>set rpcs. is_rpc e"
  by (auto simp add: fetchAllTasks_def split: sum.splits option.splits)

lemma fetchAllEvents_rpcs:
  "fetchAllEvents client ph = Some (rpcs, res) \<Longrightarrow> \<forall>e\<in>set rpcs. is_rpc e"
  by (auto simp add: fetchAllEvents_def split: sum.splits option.splits)

lemma fetchTasks_try_rpcs:
  assumes "fetchTasks_try client addr = Some (rpcs, res)"
  shows "\<forall>e\<in>set rpcs. is_rpc e"
proof (cases "fetchAllTasks client")
  case None
  with assms show ?thesis by (simp add: fetchTasks_try_def)
next
  case (Some r)
  obtain rpcs0 res0 where r: "r = (rpcs0, res0)" by (cases r)
  from Some r have ok: "\<forall>e\<in>set rpcs0. is_rpc e" by (blast dest: fetchAllTasks_rpcs)
  show ?thesis
  proof (cases res0)
    case (Inl err)
    with assms Some r ok show ?thesis by (simp add: fetchTasks_try_def)
  next
    case (Inr fetchedTasks)
    with assms Some r
    have "rpcs = rpcs0 @ map (\<lambda>task. RpcGetTransaction (transactionHash task)) fetchedTasks"
      by (simp add: fetchTasks_try_def Let_def split: sum.splits)
    with ok show ?thesis by auto
  qed
qed

lemma fetchTasks_failure:
  assumes "userAddress (fst s) \<noteq> []"
    and "fetchTasks_try client (userAddress (fst s)) = Some (rpcs, Inl err)"
  shows "fetchTasks client s =
           Some ((fst s, (snd s)\<lparr>isLoading := False, error := Some (error_message err)\<rparr>),
                 [SetIsLoading True, SetError None] @ rpcs @
                 [SetError (Some (error_message err)), SetIsLoading False])"
proof -
  obtain app h where s: "s = (app, h)" by (cases s)
  from assms(2) have "fold apply_effect rpcs (app, h\<lparr>isLoading := True, error := None\<rparr>)
        = (app, h\<lparr>isLoading := True, error := None\<rparr>)"
    by (intro fold_rpcs fetchTasks_try_rpcs)
  with assms show ?thesis
    by (simp add: fetchTasks_def fetchTasks_effects_def s)
qed

lemma fetchTasks_success:
  assumes "userAddress (fst s) \<noteq> []"
    and "fetchTasks_try client (userAddress (fst s)) = Some (rpcs, Inr filteredTasks)"
  shows "fetchTasks client s =
           Some (((fst s)\<lparr>tasks := filteredTasks\<rparr>, (snd s)\<lparr>isLoading := False, error := None\<rparr>),
                 [SetIsLoading True, SetError None] @ rpcs @
                 [SetTasks filteredTasks, SetIsLoading False])"
proof -
  obtain app h where s: "s = (app, h)" by (cases s)
  from assms(2) have "fold apply_effect rpcs (app, h\<lparr>isLoading := True, error := None\<rparr>)
        = (app, h\<lparr>isLoading := True, error := None\<rparr>)"
    by (intro fold_rpcs fetchTasks_try_rpcs)
  with assms show ?thesis
    by (simp add: fetchTasks_def fetchTasks_effects_def s)
qed

lemma fetchTasks_empty:
  assumes "userAddress (fst s) = []"
  shows "fetchTasks client s =
           Some ((fst s, (snd s)\<lparr>error := Some ''Please enter a valid address''\<rparr>),
                 [SetError (Some ''Please enter a valid address'')])"
proof -
  obtain app h where s: "s = (app, h)" by (cases s)
  with assms show ?thesis by (simp add: fetchTasks_def fetchTasks_effects_def)
qed

lemma fetchTasks_cases:
  assumes "userAddress (fst s) \<noteq> []" and "fetchTasks client s = Some (s', effects)"
  obtains (failure) rpcs err where
      "fetchTasks_try client (userAddress (fst s)) = Some (rpcs, Inl err)"
      "s' = (fst s, (snd s)\<lparr>isLoading := False, error := Some (error_message err)\<rparr>)"
      "effects = [SetIsLoading True, SetError None] @ rpcs @
                 [SetError (Some (error_message err)), SetIsLoading False]"
    | (success) rpcs filteredTasks where
      "fetchTasks_try client (userAddress (fst s)) = Some (rpcs, Inr filteredTasks)"
      "s' = ((fst s)\<lparr>tasks := filteredTasks\<rparr>, (snd s)\<lparr>isLoading := False, error := None\<rparr>)"
      "effects = [SetIsLoading True, SetError None] @ rpcs @
                 [SetTasks filteredTasks, SetIsLoading False]"
proof (cases "fetchTasks_try client (userAddress (fst s))")
  case None
  with assms show ?thesis by (simp add: fetchTasks_def fetchTasks_effects_def)
next
  case (Some r)
  obtain rpcs res where r: "r = (rpcs, res)" by (cases r)
  show ?thesis
  proof (cases res)
    case (Inl err)
    with Some r have t: "fetchTasks_try client (userAddress (fst s)) = Some (rpcs, Inl err)" by simp
    from fetchTasks_failure [OF assms(1) t] assms(2) failure [OF t] show ?thesis by simp
  next
    case (Inr ts)
    with Some r have t: "fetchTasks_try client (userAddress (fst s)) = Some (rpcs, Inr ts)" by simp
    from fetchTasks_success [OF assms(1) t] assms(2) success [OF t] show ?thesis by simp
  qed
qed

lemma fetchTasks_try_failure:
  "fetchAllTasks client = Some (rpcs, Inl err) \<Longrightarrow>
     fetchTasks_try client addr = Some (rpcs, Inl err)"
  by (simp add: fetchTasks_try_def)

lemma Promise_all_fulfilled: "Promise_all (map (\<lambda>x. Inr (f x)) xs) = Inr (map f xs)"
  by (induction xs) simp_all

lemma equal_ignoring_case_iff: "equal_ignoring_case a b \<longleftrightarrow> toLowerCase a = toLowerCase b"
  by (induction a b rule: equal_ignoring_case.induct) (simp_all add: toLowerCase_def)

lemma filterTasks_eq:
  "filterTasks (toLowerCase addr) (map (\<lambda>task. (task, senders task)) ts) =
     filter (\<lambda>task. equal_ignoring_case (senders task) addr) ts"
  by (induction ts) (simp_all add: filterTasks_def equal_ignoring_case_iff)

lemma fetchTasks_try_filter:
  assumes "fetchAllTasks client = Some (rpcs, Inr fetchedTasks)"
    and "\<forall>task\<in>set fetchedTasks.
           getTransaction client (transactionHash task) = Inr \<lparr>tx_from = senders task\<rparr>"
  shows "fetchTasks_try client addr =
           Some (rpcs @ map (\<lambda>task. RpcGetTransaction (transactionHash task)) fetchedTasks,
                 Inr (filter (\<lambda>task. equal_ignoring_case (senders task) addr) fetchedTasks))"
proof -
  from assms(2)
  have "map (\<lambda>task. case getTransaction client (transactionHash task) of
                      Inl err \<Rightarrow> Inl err
                    | Inr tx \<Rightarrow> Inr (task, tx_from tx)) fetchedTasks =
        map (\<lambda>task. Inr (task, senders task)) fetchedTasks"
    by (intro map_cong) simp_all
  then have "Promise_all (map (\<lambda>task. case getTransaction client (transactionHash task) of
                      Inl err \<Rightarrow> Inl err
                    | Inr tx \<Rightarrow> Inr (task, tx_from tx)) fetchedTasks) =
        Inr (map (\<lambda>task. (task, senders task)) fetchedTasks)"
    by (simp only: Promise_all_fulfilled)
  with assms(1) show ?thesis
    by (simp add: fetchTasks_try_def Let_def filterTasks_eq)
qed

lemma fetchEvents_failure:
  assumes "fetchAllEvents client ph = Some (rpcs, Inl err)"
  shows "fetchEvents client ph s =
           Some ((fst s, (snd s)\<lparr>isLoading := False, error := Some (error_message err)\<rparr>),
                 [SetIsLoading True, SetError None] @ rpcs @
                 [SetError (Some (error_message err)), SetIsLoading False])"
proof -
  obtain evs h where s: "s = (evs, h)" by (cases s)
  from assms have "fold apply_effect_events rpcs (evs, h\<lparr>isLoading := True, error := None\<rparr>)
        = (evs, h\<lparr>isLoading := True, error := None\<rparr>)"
    by (intro fold_rpcs_events fetchAllEvents_rpcs)
  with assms show ?thesis
    by (simp add: fetchEvents_def fetchEvents_effects_def s)
qed

lemma fetchEvents_success:
  assumes "fetchAllEvents client ph = Some (rpcs, Inr fetchedEvents)"
  shows "fetchEvents client ph s =
           Some ((fetchedEvents, (snd s)\<lparr>isLoading := False, error := None\<rparr>),
                 [SetIsLoading True, SetError None] @ rpcs @
                 [SetEvents fetchedEvents, SetIsLoading False])"
proof -
  obtain evs h where s: "s = (evs, h)" by (cases s)
  from assms have "fold apply_effect_events rpcs (evs, h\<lparr>isLoading := True, error := None\<rparr>)
        = (evs, h\<lparr>isLoading := True, error := None\<rparr>)"
    by (intro fold_rpcs_events fetchAllEvents_rpcs)
  with assms show ?thesis
    by (simp add: fetchEvents_def fetchEvents_effects_def s)
qed

lemma fetchEvents_cases:
  assumes "fetchEvents client ph s = Some (s', effects)"
  obtains (failure) rpcs err where
      "fetchAllEvents client ph = Some (rpcs, Inl err)"
      "s' = (fst s, (snd s)\<lparr>isLoading := False, error := Some (error_message err)\<rparr>)"
      "effects = [SetIsLoading True, SetError None] @ rpcs @
                 [SetError (Some (error_message err)), SetIsLoading False]"
    | (success) rpcs fetchedEvents where
      "fetchAllEvents client ph = Some (rpcs, Inr fetchedEvents)"
      "s' = (fetchedEvents, (snd s)\<lparr>isLoading := False, error := None\<rparr>)"
      "effects = [SetIsLoading True, SetError None] @ rpcs @
                 [SetEvents fetchedEvents, SetIsLoading False]"
proof (cases "fetchAllEvents client ph")
  case None
  with assms show ?thesis by (simp add: fetchEvents_def fetchEvents_effects_def)
next
  case (Some r)
  obtain rpcs res where r: "r = (rpcs, res)" by (cases r)
  show ?thesis
  proof (cases res)
    case (Inl err)
    with Some r have t: "fetchAllEvents client ph = Some (rpcs, Inl err)" by simp
    from fetchEvents_failure [OF t, of s] assms failure [OF t] show ?thesis by simp
  next
    case (Inr es)
    with Some r have t: "fetchAllEvents client ph = Some (rpcs, Inr es)" by simp
    from fetchEvents_success [OF t, of s] assms success [OF t] show ?thesis by simp
  qed
qed

lemma rpc_not_SetTasks: "\<forall>e\<in>set rpcs. is_rpc e \<Longrightarrow> SetTasks ts \<notin> set rpcs"
  by auto

lemma rpc_not_SetEvents: "\<forall>e\<in>set rpcs. is_rpc e \<Longrightarrow> SetEvents es \<notin> set rpcs"
  by auto

lemma fetchTasks_returns:
  assumes "\<forall>latestBlock. getBlockNumber client = Inr latestBlock \<longrightarrow>
             latestBlock + BLOCK_RANGE \<le> MAX_SAFE_INTEGER"
  shows "\<exists>r. fetchTasks client s = Some r"
proof -
  have "\<exists>r. fetchAllTasks client = Some r"
  proof (cases "getBlockNumber client")
    case (Inl err)
    then show ?thesis by (simp add: fetchAllTasks_def)
  next
    case (Inr latestBlock)
    with assms have "latestBlock + BLOCK_RANGE \<le> MAX_SAFE_INTEGER" by simp
    moreover have "0 \<le> BLOCK_RANGE" "- MAX_SAFE_INTEGER \<le> 3358671"
      by (simp_all add: BLOCK_RANGE_def MAX_SAFE_INTEGER_def)
    ultimately obtain y where "paginate (fetchTasksInRange client) 3358671 latestBlock BLOCK_RANGE
        = Some y"
      unfolding paginate_def using paginate_loop_returns by blast
    with Inr show ?thesis by (cases y) (simp add: fetchAllTasks_def)
  qed
  then obtain rpcs res where "fetchAllTasks client = Some (rpcs, res)" by auto
  then have "\<exists>r. fetchTasks_try client (userAddress (fst s)) = Some r"
    by (cases res) (simp_all add: fetchTasks_try_def Let_def split: sum.splits)
  then show ?thesis
    by (auto simp add: fetchTasks_def fetchTasks_effects_def split: sum.splits)
qed

subsection \<open>The examples, evaluated\<close>

lemma example_fetchAllTasks:
  "fetchAllTasks example_client =
     Some ([RpcGetBlockNumber, RpcGetContractEvents (tasks_query 3358671 3408671),
            RpcGetContractEvents (tasks_query 3408672 3458672)],
           Inr [example_task ''0xaa'' 3358700, example_task ''0xbb'' 3400000,
                example_task ''0xcc'' 3458000])"
proof -
  have "getBlockNumber example_client = Inr 3458672" by (simp add: example_client_def)
  moreover have "paginate (fetchTasksInRange example_client) 3358671 3458672 BLOCK_RANGE =
      Some ([(3358671, 3408671), (3408672, 3458672)],
            Inr [example_task ''0xaa'' 3358700, example_task ''0xbb'' 3400000,
                 example_task ''0xcc'' 3458000])"
    by (simp add: paginate_def paginate_loop.simps toNumber_def round_to_double_def
        bit_length.simps Let_def BLOCK_RANGE_def fetchTasksInRange_def example_client_def
        tasks_query_def)
  ultimately show ?thesis by (simp add: fetchAllTasks_def)
qed

lemma example_senders_ok:
  "\<forall>task\<in>set [example_task ''0xaa'' 3358700, example_task ''0xbb'' 3400000,
                example_task ''0xcc'' 3458000].
     getTransaction example_client (transactionHash task) = Inr \<lparr>tx_from = example_senders task\<rparr>"
  by (simp add: example_client_def example_task_def example_senders_def)

lemma example_filter:
  "filter (\<lambda>task. equal_ignoring_case (example_senders task) ''0xaBc1'')
     [example_task ''0xaa'' 3358700, example_task ''0xbb'' 3400000, example_task ''0xcc'' 3458000]
   = [example_task ''0xaa'' 3358700, example_task ''0xcc'' 3458000]"
  by (simp add: example_senders_def example_task_def toLowerCase_char_def)

lemma example_fetchTasks:
  "fetchTasks example_client example_state =
     Some (((fst example_state)\<lparr>tasks := [example_task ''0xaa'' 3358700, example_task ''0xcc'' 3458000]\<rparr>,
            \<lparr>isLoading = False, error = None\<rparr>),
           [SetIsLoading True, SetError None, RpcGetBlockNumber,
            RpcGetContractEvents (tasks_query 3358671 3408671),
            RpcGetContractEvents (tasks_query 3408672 3458672),
            RpcGetTransaction ''0xaa'', RpcGetTransaction ''0xbb'', RpcGetTransaction ''0xcc'',
            SetTasks [example_task ''0xaa'' 3358700, example_task ''0xcc'' 3458000],
            SetIsLoading False])"
proof -
  have a: "userAddress (fst example_state) = ''0xaBc1''" by (simp add: example_state_def)
  then have ne: "userAddress (fst example_state) \<noteq> []" by simp
  have h: "snd example_state = \<lparr>isLoading = False, error = Some ''HTTP request failed''\<rparr>"
    by (simp add: example_state_def)
  from fetchTasks_try_filter [OF example_fetchAllTasks example_senders_ok, of "''0xaBc1''"]
  have "fetchTasks_try example_client (userAddress (fst example_state)) =
      Some ([RpcGetBlockNumber, RpcGetContractEvents (tasks_query 3358671 3408671),
            RpcGetContractEvents (tasks_query 3408672 3458672),
            RpcGetTransaction ''0xaa'', RpcGetTransaction ''0xbb'', RpcGetTransaction ''0xcc''],
          Inr [example_task ''0xaa'' 3358700, example_task ''0xcc'' 3458000])"
    unfolding a example_filter by (simp add: example_task_def)
  from fetchTasks_success [OF ne this] show ?thesis by (simp add: h)
qed

lemma example_fetchEvents:
  "fetchEvents example_event_client ''0x1234'' ([], \<lparr>isLoading = False, error = Some ''timeout''\<rparr>) =
     Some (([example_event], \<lparr>isLoading = False, error = None\<rparr>),
           [SetIsLoading True, SetError None, RpcGetBlockNumber,
            RpcGetContractEvents (events_query ''0x1234'' 3358559 3400000),
            SetEvents [example_event], SetIsLoading False])"
proof -
  have "getBlockNumber example_event_client = Inr 3400000" by (simp add: example_event_client_def)
  moreover have "paginate (\<lambda>f t. fetchEventsInRange example_event_client f t ''0x1234'')
       3358559 3400000 BLOCK_RANGE = Some ([(3358559, 3400000)], Inr [example_event])"
    by (simp add: paginate_def paginate_loop.simps toNumber_def round_to_double_def
        bit_length.simps Let_def BLOCK_RANGE_def fetchEventsInRange_def example_event_client_def)
  ultimately have "fetchAllEvents example_event_client ''0x1234'' =
      Some ([RpcGetBlockNumber, RpcGetContractEvents (events_query ''0x1234'' 3358559 3400000)],
            Inr [example_event])"
    by (simp add: fetchAllEvents_def)
  from fetchEvents_success [OF this, of "([], \<lparr>isLoading = False, error = Some ''timeout''\<rparr>)"]
  show ?thesis by simp
qed

section \<open>Claims about the fetch operations\<close>

subsection \<open>The sender filter\<close>

text \<open>
  Claim C3. For every list of fetched tasks whose transactions have the senders
  \<open>senders\<close> and every supplied address, the filtering step of \<^verbatim>\<open>fetchTasks\<close> keeps
  exactly the tasks whose sender equals the address up to case, in the order of the
  fetched list (it is a \<open>filter\<close> of that list). Hence a call of \<^verbatim>\<open>fetchTasks\<close> with
  a non-empty address, whose log query returned \<open>fetchedTasks\<close> and whose transaction
  lookups all succeeded, gives exactly those tasks to \<^verbatim>\<open>setTasks\<close>.
\<close>

theorem sender_filter:
  "filterTasks (toLowerCase addr) (map (\<lambda>task. (task, senders task)) ts) =
     filter (\<lambda>task. equal_ignoring_case (senders task) addr) ts
   \<and> (userAddress (fst s) \<noteq> []
      \<and> fetchAllTasks client = Some (rpcs, Inr fetchedTasks)
      \<and> (\<forall>task\<in>set fetchedTasks.
            getTransaction client (transactionHash task) = Inr \<lparr>tx_from = senders task\<rparr>) \<longrightarrow>
      fetchTasks client s =
        Some (((fst s)\<lparr>tasks := filter (\<lambda>task. equal_ignoring_case (senders task)
                                             (userAddress (fst s))) fetchedTasks\<rparr>,
               (snd s)\<lparr>isLoading := False, error := None\<rparr>),
              [SetIsLoading True, SetError None] @ rpcs @
              map (\<lambda>task. RpcGetTransaction (transactionHash task)) fetchedTasks @
              [SetTasks (filter (\<lambda>task. equal_ignoring_case (senders task)
                                   (userAddress (fst s))) fetchedTasks),
               SetIsLoading False]))"
proof (intro conjI impI)
  show "filterTasks (toLowerCase addr) (map (\<lambda>task. (task, senders task)) ts) =
     filter (\<lambda>task. equal_ignoring_case (senders task) addr) ts"
    by (rule filterTasks_eq)
next
  assume a: "userAddress (fst s) \<noteq> []
      \<and> fetchAllTasks client = Some (rpcs, Inr fetchedTasks)
      \<and> (\<forall>task\<in>set fetchedTasks.
            getTransaction client (transactionHash task) = Inr \<lparr>tx_from = senders task\<rparr>)"
  then have ne: "userAddress (fst s) \<noteq> []"
    and all: "fetchAllTasks client = Some (rpcs, Inr fetchedTasks)"
    and txs: "\<forall>task\<in>set fetchedTasks.
            getTransaction client (transactionHash task) = Inr \<lparr>tx_from = senders task\<rparr>"
    by simp_all
  from fetchTasks_success [OF ne fetchTasks_try_filter [OF all txs]]
  show "fetchTasks client s =
        Some (((fst s)\<lparr>tasks := filter (\<lambda>task. equal_ignoring_case (senders task)
                                             (userAddress (fst s))) fetchedTasks\<rparr>,
               (snd s)\<lparr>isLoading := False, error := None\<rparr>),
              [SetIsLoading True, SetError None] @ rpcs @
              map (\<lambda>task. RpcGetTransaction (transactionHash task)) fetchedTasks @
              [SetTasks (filter (\<lambda>task. equal_ignoring_case (senders task)
                                   (userAddress (fst s))) fetchedTasks),
               SetIsLoading False])"
    by simp
qed

theorem sender_filter_witness:
  "userAddress (fst example_state) \<noteq> []
   \<and> getTransaction example_client ''0xaa'' = Inr \<lparr>tx_from = ''0xAbC1''\<rparr>
   \<and> getTransaction example_client ''0xbb'' = Inr \<lparr>tx_from = ''0x00d1''\<rparr>
   \<and> getTransaction example_client ''0xcc'' = Inr \<lparr>tx_from = ''0xAbC1''\<rparr>
   \<and> map example_senders [example_task ''0xaa'' 3358700, example_task ''0xbb'' 3400000,
                           example_task ''0xcc'' 3458000] = [''0xAbC1'', ''0x00d1'', ''0xAbC1'']
   \<and> userAddress (fst example_state) = ''0xaBc1''
   \<and> map_option (tasks \<circ> fst \<circ> fst) (fetchTasks example_client example_state) =
       Some [example_task ''0xaa'' 3358700, example_task ''0xcc'' 3458000]"
proof -
  have ne: "userAddress (fst example_state) \<noteq> []" by (simp add: example_state_def)
  have a: "userAddress (fst example_state) = ''0xaBc1''" by (simp add: example_state_def)
  have m: "map example_senders [example_task ''0xaa'' 3358700, example_task ''0xbb'' 3400000,
                           example_task ''0xcc'' 3458000] = [''0xAbC1'', ''0x00d1'', ''0xAbC1'']"
    by (simp add: example_senders_def example_task_def)
  from ne example_fetchAllTasks example_senders_ok
  have hyp: "userAddress (fst example_state) \<noteq> []
      \<and> fetchAllTasks example_client =
          Some ([RpcGetBlockNumber, RpcGetContractEvents (tasks_query 3358671 3408671),
                 RpcGetContractEvents (tasks_query 3408672 3458672)],
                Inr [example_task ''0xaa'' 3358700, example_task ''0xbb'' 3400000,
                     example_task ''0xcc'' 3458000])
      \<and> (\<forall>task\<in>set [example_task ''0xaa'' 3358700, example_task ''0xbb'' 3400000,
                       example_task ''0xcc'' 3458000].
            getTransaction example_client (transactionHash task) =
              Inr \<lparr>tx_from = example_senders task\<rparr>)"
    by blast
  from mp [OF conjunct2 [OF sender_filter
      [where s = example_state and client = example_client and senders = example_senders]] hyp]
  have "map_option (tasks \<circ> fst \<circ> fst) (fetchTasks example_client example_state) =
       Some [example_task ''0xaa'' 3358700, example_task ''0xcc'' 3458000]"
    unfolding a example_filter by simp
  moreover have "getTransaction example_client ''0xaa'' = Inr \<lparr>tx_from = ''0xAbC1''\<rparr>"
    "getTransaction example_client ''0xbb'' = Inr \<lparr>tx_from = ''0x00d1''\<rparr>"
    "getTransaction example_client ''0xcc'' = Inr \<lparr>tx_from = ''0xAbC1''\<rparr>"
    by (simp_all add: example_client_def)
  ultimately show ?thesis using ne a m by blast
qed

subsection \<open>Fail-fast pagination\<close>

text \<open>
  Claim C4. At the step where the fetch function throws, the loop returns at once: the
  failing call is the last call made, and the result is the thrown value, not the
  batches collected so far (first part, for all block heights). For block heights that
  doubles represent exactly, let \<open>rs\<close> be the sub-ranges of \<open>[start, tip]\<close> (\<open>tiles\<close>).
  If the fetch function throws on the sub-range \<open>rs ! k\<close> and on none before it, the
  loop returns after exactly the calls \<open>rs ! 0\<close> to \<open>rs ! k\<close> with that thrown value: no
  later sub-range is fetched, and nothing of the earlier sub-ranges is returned (second
  part). So if it throws on any sub-range, the loop returns with the thrown value of
  the first sub-range on which it throws (third part). In \<^verbatim>\<open>fetchTasks\<close>, with a
  non-empty address, the thrown value is caught: the call returns with the \<^verbatim>\<open>App\<close>
  state, and so the task list, as it was, the message of the thrown value as error,
  the loading flag cleared, and neither a transaction lookup nor a call of
  \<^verbatim>\<open>setTasks\<close> among its effects (fourth part).
\<close>

theorem fetch_failure_is_fail_fast:
  "(a \<le> tip \<and> toBigInt (Math_min (toNumber (a + maxSpan)) (toNumber tip)) = Inr t
      \<and> fetch a t = Inl e \<longrightarrow>
      paginate_loop fetch maxSpan tip a calls acc = Some (calls @ [(a, t)], Inl e))
   \<and> (0 < maxSpan \<and> - MAX_SAFE_INTEGER \<le> start \<and> tip + maxSpan \<le> MAX_SAFE_INTEGER
      \<and> tiles maxSpan tip start rs \<and> k < length rs
      \<and> fetch (fst (rs ! k)) (snd (rs ! k)) = Inl e
      \<and> (\<forall>i<k. \<exists>xs. fetch (fst (rs ! i)) (snd (rs ! i)) = Inr xs) \<longrightarrow>
      paginate fetch start tip maxSpan = Some (take (Suc k) rs, Inl e))
   \<and> (0 < maxSpan \<and> - MAX_SAFE_INTEGER \<le> start \<and> tip + maxSpan \<le> MAX_SAFE_INTEGER
      \<and> tiles maxSpan tip start rs \<and> r \<in> set rs \<and> fetch (fst r) (snd r) = Inl e \<longrightarrow>
      (\<exists>j e'. j < length rs \<and> fetch (fst (rs ! j)) (snd (rs ! j)) = Inl e'
         \<and> (\<forall>i<j. \<exists>xs. fetch (fst (rs ! i)) (snd (rs ! i)) = Inr xs)
         \<and> paginate fetch start tip maxSpan = Some (take (Suc j) rs, Inl e')))
   \<and> (userAddress (fst s) \<noteq> [] \<and> getBlockNumber client = Inr latestBlock
      \<and> latestBlock + BLOCK_RANGE \<le> MAX_SAFE_INTEGER
      \<and> tiles BLOCK_RANGE latestBlock 3358671 rs \<and> k < length rs
      \<and> fetchTasksInRange client (fst (rs ! k)) (snd (rs ! k)) = Inl e
      \<and> (\<forall>i<k. \<exists>xs. fetchTasksInRange client (fst (rs ! i)) (snd (rs ! i)) = Inr xs) \<longrightarrow>
      fetchTasks client s =
        Some ((fst s, (snd s)\<lparr>isLoading := False, error := Some (error_message e)\<rparr>),
              [SetIsLoading True, SetError None, RpcGetBlockNumber] @
              map (\<lambda>(f, t). RpcGetContractEvents (tasks_query f t)) (take (Suc k) rs) @
              [SetError (Some (error_message e)), SetIsLoading False]))"
proof -
  have loop: "paginate fetch start tip maxSpan = Some (take (Suc k) rs, Inl e)"
    if "0 < maxSpan" "- MAX_SAFE_INTEGER \<le> start" "tip + maxSpan \<le> MAX_SAFE_INTEGER"
      "tiles maxSpan tip start rs" "k < length rs"
      "fetch (fst (rs ! k)) (snd (rs ! k)) = Inl e"
      "\<forall>i<k. \<exists>xs. fetch (fst (rs ! i)) (snd (rs ! i)) = Inr xs"
    for fetch :: "int \<Rightarrow> int \<Rightarrow> thrown + 'b list" and maxSpan start tip rs k e
  proof -
    from that(1) have "0 \<le> maxSpan" by simp
    from paginate_loop_first_failure [OF this that(3) that(2) that(4) that(5) that(6) that(7),
        of "[]" "[]"]
    show ?thesis by (simp add: paginate_def)
  qed
  have any: "\<exists>j e'. j < length rs \<and> fetch (fst (rs ! j)) (snd (rs ! j)) = Inl e'
         \<and> (\<forall>i<j. \<exists>xs. fetch (fst (rs ! i)) (snd (rs ! i)) = Inr xs)
         \<and> paginate fetch start tip maxSpan = Some (take (Suc j) rs, Inl e')"
    if "0 < maxSpan" "- MAX_SAFE_INTEGER \<le> start" "tip + maxSpan \<le> MAX_SAFE_INTEGER"
      "tiles maxSpan tip start rs" "r \<in> set rs" "fetch (fst r) (snd r) = Inl e"
  proof -
    from first_failing_index [where fetch = fetch, OF that(5) that(6)]
    obtain j e' where j: "j < length rs" "fetch (fst (rs ! j)) (snd (rs ! j)) = Inl e'"
      "\<forall>i<j. \<exists>xs. fetch (fst (rs ! i)) (snd (rs ! i)) = Inr xs" by blast
    from loop [OF that(1,2,3,4) j] j show ?thesis by blast
  qed
  have op: "fetchTasks client s =
        Some ((fst s, (snd s)\<lparr>isLoading := False, error := Some (error_message e)\<rparr>),
              [SetIsLoading True, SetError None, RpcGetBlockNumber] @
              map (\<lambda>(f, t). RpcGetContractEvents (tasks_query f t)) (take (Suc k) rs) @
              [SetError (Some (error_message e)), SetIsLoading False])"
    if ne: "userAddress (fst s) \<noteq> []" and tip: "getBlockNumber client = Inr latestBlock"
      and safe: "latestBlock + BLOCK_RANGE \<le> MAX_SAFE_INTEGER"
      and rs: "tiles BLOCK_RANGE latestBlock 3358671 rs" "k < length rs"
        "fetchTasksInRange client (fst (rs ! k)) (snd (rs ! k)) = Inl e"
        "\<forall>i<k. \<exists>xs. fetchTasksInRange client (fst (rs ! i)) (snd (rs ! i)) = Inr xs"
  proof -
    have "0 < BLOCK_RANGE" "- MAX_SAFE_INTEGER \<le> 3358671"
      by (simp_all add: BLOCK_RANGE_def MAX_SAFE_INTEGER_def)
    from loop [OF this safe rs]
    have "paginate (fetchTasksInRange client) 3358671 latestBlock BLOCK_RANGE =
        Some (take (Suc k) rs, Inl e)" .
    with tip have "fetchAllTasks client =
        Some (RpcGetBlockNumber #
              map (\<lambda>(f, t). RpcGetContractEvents (tasks_query f t)) (take (Suc k) rs), Inl e)"
      by (simp add: fetchAllTasks_def)
    from fetchTasks_failure [OF ne fetchTasks_try_failure [OF this]] show ?thesis by simp
  qed
  show ?thesis
  proof (intro conjI impI)
    assume "a \<le> tip \<and> toBigInt (Math_min (toNumber (a + maxSpan)) (toNumber tip)) = Inr t
      \<and> fetch a t = Inl e"
    then show "paginate_loop fetch maxSpan tip a calls acc = Some (calls @ [(a, t)], Inl e)"
      by (simp add: paginate_loop_failing_step)
  next
    assume "0 < maxSpan \<and> - MAX_SAFE_INTEGER \<le> start \<and> tip + maxSpan \<le> MAX_SAFE_INTEGER
      \<and> tiles maxSpan tip start rs \<and> k < length rs
      \<and> fetch (fst (rs ! k)) (snd (rs ! k)) = Inl e
      \<and> (\<forall>i<k. \<exists>xs. fetch (fst (rs ! i)) (snd (rs ! i)) = Inr xs)"
    then show "paginate fetch start tip maxSpan = Some (take (Suc k) rs, Inl e)"
      by (intro loop) simp_all
  next
    assume "0 < maxSpan \<and> - MAX_SAFE_INTEGER \<le> start \<and> tip + maxSpan \<le> MAX_SAFE_INTEGER
      \<and> tiles maxSpan tip start rs \<and> r \<in> set rs \<and> fetch (fst r) (snd r) = Inl e"
    then show "\<exists>j e'. j < length rs \<and> fetch (fst (rs ! j)) (snd (rs ! j)) = Inl e'
         \<and> (\<forall>i<j. \<exists>xs. fetch (fst (rs ! i)) (snd (rs ! i)) = Inr xs)
         \<and> paginate fetch start tip maxSpan = Some (take (Suc j) rs, Inl e')"
      by (intro any) simp_all
  next
    assume "userAddress (fst s) \<noteq> [] \<and> getBlockNumber client = Inr latestBlock
      \<and> latestBlock + BLOCK_RANGE \<le> MAX_SAFE_INTEGER
      \<and> tiles BLOCK_RANGE latestBlock 3358671 rs \<and> k < length rs
      \<and> fetchTasksInRange client (fst (rs ! k)) (snd (rs ! k)) = Inl e
      \<and> (\<forall>i<k. \<exists>xs. fetchTasksInRange client (fst (rs ! i)) (snd (rs ! i)) = Inr xs)"
    then show "fetchTasks client s =
        Some ((fst s, (snd s)\<lparr>isLoading := False, error := Some (error_message e)\<rparr>),
              [SetIsLoading True, SetError None, RpcGetBlockNumber] @
              map (\<lambda>(f, t). RpcGetContractEvents (tasks_query f t)) (take (Suc k) rs) @
              [SetError (Some (error_message e)), SetIsLoading False])"
      by (intro op) simp_all
  qed
qed

theorem fetch_failure_is_fail_fast_witness:
  "tiles BLOCK_RANGE 3458672 3358671 [(3358671, 3408671), (3408672, 3458672)]
   \<and> fetchTasksInRange failing_client 3358671 3408671 = Inr [example_task ''0xaa'' 3358700]
   \<and> fetchTasksInRange failing_client 3408672 3458672 = Inl (Error ''HTTP request failed'')
   \<and> paginate_loop (fetchTasksInRange failing_client) BLOCK_RANGE 3458672 3408672
        [(3358671, 3408671)] [example_task ''0xaa'' 3358700] =
      Some ([(3358671, 3408671), (3408672, 3458672)], Inl (Error ''HTTP request failed''))
   \<and> paginate (fetchTasksInRange failing_client) 3358671 3458672 BLOCK_RANGE =
      Some ([(3358671, 3408671), (3408672, 3458672)], Inl (Error ''HTTP request failed''))
   \<and> userAddress (fst example_state) \<noteq> []
   \<and> getBlockNumber failing_client = Inr 3458672
   \<and> fetchTasks failing_client example_state =
        Some ((fst example_state, \<lparr>isLoading = False, error = Some ''HTTP request failed''\<rparr>),
              [SetIsLoading True, SetError None, RpcGetBlockNumber,
               RpcGetContractEvents (tasks_query 3358671 3408671),
               RpcGetContractEvents (tasks_query 3408672 3458672),
               SetError (Some ''HTTP request failed''), SetIsLoading False])
   \<and> tasks (fst example_state) = [example_task ''0x99'' 3358690]"
proof -
  let ?rs = "[(3358671 :: int, 3408671 :: int), (3408672, 3458672)]"
  let ?e = "Error ''HTTP request failed''"
  have tl: "tiles BLOCK_RANGE 3458672 3358671 ?rs" by (simp add: BLOCK_RANGE_def)
  have f1: "fetchTasksInRange failing_client 3358671 3408671 = Inr [example_task ''0xaa'' 3358700]"
    and f2: "fetchTasksInRange failing_client 3408672 3458672 = Inl ?e"
    by (simp_all add: fetchTasksInRange_def failing_client_def tasks_query_def)
  have ne: "userAddress (fst example_state) \<noteq> []" by (simp add: example_state_def)
  have tip: "getBlockNumber failing_client = Inr 3458672" by (simp add: failing_client_def)
  have h: "snd example_state = \<lparr>isLoading = False, error = Some ''HTTP request failed''\<rparr>"
    and t: "tasks (fst example_state) = [example_task ''0x99'' 3358690]"
    by (simp_all add: example_state_def)
  have to: "toBigInt (Math_min (toNumber (3408672 + BLOCK_RANGE)) (toNumber 3458672)) = Inr 3458672"
    by (simp add: BLOCK_RANGE_def toNumber_def round_to_double_def bit_length.simps Let_def)
  have safe: "0 < BLOCK_RANGE" "- MAX_SAFE_INTEGER \<le> 3358671"
    "3458672 + BLOCK_RANGE \<le> MAX_SAFE_INTEGER"
    by (simp_all add: BLOCK_RANGE_def MAX_SAFE_INTEGER_def)
  have k: "(1::nat) < length ?rs" by simp
  have fk: "fetchTasksInRange failing_client (fst (?rs ! 1)) (snd (?rs ! 1)) = Inl ?e"
    using f2 by simp
  have before: "\<forall>i<(1::nat). \<exists>xs. fetchTasksInRange failing_client (fst (?rs ! i)) (snd (?rs ! i)) = Inr xs"
    using f1 by simp
  note inst = fetch_failure_is_fail_fast
    [where fetch = "fetchTasksInRange failing_client" and maxSpan = BLOCK_RANGE
       and tip = 3458672 and a = 3408672 and t = 3458672 and e = ?e
       and calls = "[(3358671, 3408671)]" and acc = "[example_task ''0xaa'' 3358700]"
       and start = 3358671 and rs = ?rs and k = 1
       and s = example_state and client = failing_client and latestBlock = 3458672]
  from inst to f2
  have 1: "paginate_loop (fetchTasksInRange failing_client) BLOCK_RANGE 3458672 3408672
        [(3358671, 3408671)] [example_task ''0xaa'' 3358700] =
      Some ([(3358671, 3408671), (3408672, 3458672)], Inl ?e)"
    by simp
  from inst safe tl k fk before
  have 2: "paginate (fetchTasksInRange failing_client) 3358671 3458672 BLOCK_RANGE =
      Some (?rs, Inl ?e)"
    by simp
  from inst ne tip safe tl k fk before
  have 3: "fetchTasks failing_client example_state =
        Some ((fst example_state, \<lparr>isLoading = False, error = Some ''HTTP request failed''\<rparr>),
              [SetIsLoading True, SetError None, RpcGetBlockNumber,
               RpcGetContractEvents (tasks_query 3358671 3408671),
               RpcGetContractEvents (tasks_query 3408672 3458672),
               SetError (Some ''HTTP request failed''), SetIsLoading False])"
    by (simp add: h)
  from tl f1 f2 1 2 ne tip 3 t show ?thesis by blast
qed

subsection \<open>Validation of the address, and the loading flag\<close>

text \<open>
  Claim C9. With an empty address \<^verbatim>\<open>fetchTasks\<close> returns after its only effect, setting
  the validation error: no request goes to the network, \<^verbatim>\<open>setIsLoading\<close> is not called
  and nothing else of the state changes. Every call with a non-empty address that
  completes, whether the \<^verbatim>\<open>try\<close> block succeeded or threw, ends with
  \<^verbatim>\<open>setIsLoading(false)\<close> as its last effect and the flag cleared. So every call made
  while the flag is clear (the button that calls \<^verbatim>\<open>fetchTasks\<close> is disabled while it is
  set) leaves it clear. (By \<open>fetchTasks_returns\<close> the call completes whenever the block
  number reported is in the range of exact doubles.)
\<close>

theorem empty_address_rejected:
  "(userAddress (fst s) = [] \<longrightarrow>
      fetchTasks client s =
        Some ((fst s, (snd s)\<lparr>error := Some ''Please enter a valid address''\<rparr>),
              [SetError (Some ''Please enter a valid address'')]))
   \<and> (userAddress (fst s) \<noteq> [] \<and> fetchTasks client s = Some (s', effects) \<longrightarrow>
        \<not> isLoading (snd s') \<and> last effects = SetIsLoading False)
   \<and> (\<not> isLoading (snd s) \<and> fetchTasks client s = Some (s', effects) \<longrightarrow>
        \<not> isLoading (snd s'))"
proof -
  have a: "\<not> isLoading (snd s') \<and> last effects = SetIsLoading False"
    if "userAddress (fst s) \<noteq> []" "fetchTasks client s = Some (s', effects)"
    using that by (cases rule: fetchTasks_cases) simp_all
  have b: "\<not> isLoading (snd s')"
    if "\<not> isLoading (snd s)" "fetchTasks client s = Some (s', effects)"
  proof (cases "userAddress (fst s) = []")
    case True
    from fetchTasks_empty [OF True, of client] that show ?thesis by auto
  next
    case False
    from a [OF False that(2)] show ?thesis by simp
  qed
  from fetchTasks_empty a b show ?thesis by blast
qed

theorem empty_address_rejected_witness:
  "userAddress (fst ((fst example_state)\<lparr>userAddress := []\<rparr>, snd example_state)) = []
   \<and> fetchTasks example_client ((fst example_state)\<lparr>userAddress := []\<rparr>, snd example_state) =
       Some (((fst example_state)\<lparr>userAddress := []\<rparr>,
              \<lparr>isLoading = False, error = Some ''Please enter a valid address''\<rparr>),
             [SetError (Some ''Please enter a valid address'')])
   \<and> userAddress (fst example_state) \<noteq> []
   \<and> \<not> isLoading (snd example_state)
   \<and> map_option (isLoading \<circ> snd \<circ> fst) (fetchTasks example_client example_state) = Some False
   \<and> map_option (last \<circ> snd) (fetchTasks example_client example_state) = Some (SetIsLoading False)"
proof -
  let ?e = "((fst example_state)\<lparr>userAddress := []\<rparr>, snd example_state)"
  have e: "userAddress (fst ?e) = []" by simp
  have ne: "userAddress (fst example_state) \<noteq> []" by (simp add: example_state_def)
  have nl: "\<not> isLoading (snd example_state)" by (simp add: example_state_def)
  have h: "snd example_state = \<lparr>isLoading = False, error = Some ''HTTP request failed''\<rparr>"
    by (simp add: example_state_def)
  from empty_address_rejected [of ?e example_client] e
  have 1: "fetchTasks example_client ?e =
       Some (((fst example_state)\<lparr>userAddress := []\<rparr>,
              \<lparr>isLoading = False, error = Some ''Please enter a valid address''\<rparr>),
             [SetError (Some ''Please enter a valid address'')])"
    by (simp add: h)
  from empty_address_rejected [of example_state example_client _ _] ne nl example_fetchTasks
  have 2: "map_option (isLoading \<circ> snd \<circ> fst) (fetchTasks example_client example_state) = Some False"
    and 3: "map_option (last \<circ> snd) (fetchTasks example_client example_state) = Some (SetIsLoading False)"
    by simp_all
  from e 1 ne nl 2 3 show ?thesis by blast
qed

subsection \<open>The error is reset before a fetch\<close>

text \<open>
  Claim C10. A call of \<^verbatim>\<open>fetchTasks\<close> that passes the validation of the address, and
  every call of \<^verbatim>\<open>fetchEvents\<close>, begins with \<^verbatim>\<open>setIsLoading(true)\<close> and
  \<^verbatim>\<open>setError(null)\<close>, before any request to the network. When the call completes
  successfully, that is, when it reached \<^verbatim>\<open>setTasks\<close> (\<^verbatim>\<open>setEvents\<close>), the error of
  the final state is \<^verbatim>\<open>null\<close>, whatever it was before.
\<close>

theorem fetch_resets_error:
  "(userAddress (fst s) \<noteq> [] \<and> fetchTasks client s = Some (s', effects) \<longrightarrow>
      take 2 effects = [SetIsLoading True, SetError None]
      \<and> ((\<exists>ts. SetTasks ts \<in> set effects) \<longrightarrow> error (snd s') = None))
   \<and> (fetchEvents eclient payload_hash es = Some (es', effects') \<longrightarrow>
      take 2 effects' = [SetIsLoading True, SetError None]
      \<and> ((\<exists>evs. SetEvents evs \<in> set effects') \<longrightarrow> error (snd es') = None))"
proof -
  have a: "take 2 effects = [SetIsLoading True, SetError None]
      \<and> ((\<exists>ts. SetTasks ts \<in> set effects) \<longrightarrow> error (snd s') = None)"
    if "userAddress (fst s) \<noteq> []" "fetchTasks client s = Some (s', effects)"
    using that
  proof (cases rule: fetchTasks_cases)
    case (failure rpcs err)
    from failure(1) have "\<forall>e\<in>set rpcs. is_rpc e" by (rule fetchTasks_try_rpcs)
    then have "\<And>ts. SetTasks ts \<notin> set rpcs" by (rule rpc_not_SetTasks)
    with failure(3) show ?thesis by simp
  next
    case (success rpcs filteredTasks)
    then show ?thesis by simp
  qed
  have b: "take 2 effects' = [SetIsLoading True, SetError None]
      \<and> ((\<exists>evs. SetEvents evs \<in> set effects') \<longrightarrow> error (snd es') = None)"
    if "fetchEvents eclient payload_hash es = Some (es', effects')"
    using that
  proof (cases rule: fetchEvents_cases)
    case (failure rpcs err)
    from failure(1) have "\<forall>e\<in>set rpcs. is_rpc e" by (rule fetchAllEvents_rpcs)
    then have "\<And>evs. SetEvents evs \<notin> set rpcs" by (rule rpc_not_SetEvents)
    with failure(3) show ?thesis by simp
  next
    case (success rpcs fetchedEvents)
    then show ?thesis by simp
  qed
  from a b show ?thesis by blast
qed

theorem fetch_resets_error_witness:
  "userAddress (fst example_state) \<noteq> []
   \<and> error (snd example_state) = Some ''HTTP request failed''
   \<and> map_option (error \<circ> snd \<circ> fst) (fetchTasks example_client example_state) = Some None
   \<and> map_option (take 2 \<circ> snd) (fetchTasks example_client example_state) =
       Some [SetIsLoading True, SetError None]
   \<and> map_option (error \<circ> snd \<circ> fst)
       (fetchEvents example_event_client ''0x1234''
          ([], \<lparr>isLoading = False, error = Some ''timeout''\<rparr>)) = Some None"
proof -
  have ne: "userAddress (fst example_state) \<noteq> []" by (simp add: example_state_def)
  have st: "error (snd example_state) = Some ''HTTP request failed''"
    by (simp add: example_state_def)
  note t = fetch_resets_error [of example_state example_client _ _ example_event_client
      "''0x1234''" "([], \<lparr>isLoading = False, error = Some ''timeout''\<rparr>)" _ _]
  from t ne example_fetchTasks
  have 1: "map_option (error \<circ> snd \<circ> fst) (fetchTasks example_client example_state) = Some None"
    and 2: "map_option (take 2 \<circ> snd) (fetchTasks example_client example_state) =
       Some [SetIsLoading True, SetError None]"
    by simp_all
  from t example_fetchEvents
  have 3: "map_option (error \<circ> snd \<circ> fst)
       (fetchEvents example_event_client ''0x1234''
          ([], \<lparr>isLoading = False, error = Some ''timeout''\<rparr>)) = Some None"
    by simp
  from ne st 1 2 3 show ?thesis by blast
qed


section \<open>The decoders\<close>

lemma example_encoding:
  "example_stringify (JObject [(''image'', JString ''aGk=''), (''theme'', JString ''cat'')])
     = example_input_text"
  "example_toHex example_input_text = example_input_hex"
  by (simp_all add: example_input_text_def example_input_hex_def example_toHex_def
      byte_hex_def quoted_def)

lemma example_decoding:
  "example_hexToString example_input_hex = Inr example_input_text"
  "example_hexToString ''0xzz'' = Inl (Error ''Invalid byte sequence'')"
  "example_hexToString ''0x6e756c6c'' = Inr ''null''"
  by (simp_all add: example_hexToString_def example_input_hex_def example_input_text_def
      charCodeToBase16_def char_of_def bit_Suc_0_iff)

text \<open>
  Claim C5. For every input and every behaviour of the library, \<^verbatim>\<open>decodeImageFromHex\<close>
  and \<^verbatim>\<open>decodeNotice\<close> return and do not throw, and what they return is either their
  fixed string (\<^verbatim>\<open>Unable to decode image data\<close>, \<^verbatim>\<open>Unable to decode notice\<close>) or a
  \<^verbatim>\<open>div\<close> element. They return the fixed string when \<^verbatim>\<open>hexToString\<close> throws
  (malformed hex), when \<^verbatim>\<open>JSON.parse\<close> throws (malformed JSON), when the JSON value
  is \<^verbatim>\<open>null\<close>, and when \<^verbatim>\<open>decodeAbiParameters\<close> throws (malformed ABI encoding).
  (This is about the call of the decoder. An element returned for a JSON object whose
  \<^verbatim>\<open>theme\<close> is itself an object is rejected later by React, when it renders the child.)
\<close>

theorem decoders_never_throw:
  "(\<exists>v. decodeImageFromHex lib inputHex = Inr v
        \<and> (v = Text ''Unable to decode image data''
           \<or> (\<exists>props children. v = Element ''div'' props children)))
   \<and> (\<forall>err. hexToString lib inputHex = Inl err \<longrightarrow>
          decodeImageFromHex lib inputHex = Inr (Text ''Unable to decode image data''))
   \<and> (\<forall>jsonString err.
          hexToString lib inputHex = Inr jsonString \<and> JSON_parse lib jsonString = Inl err \<longrightarrow>
          decodeImageFromHex lib inputHex = Inr (Text ''Unable to decode image data''))
   \<and> (\<forall>jsonString.
          hexToString lib inputHex = Inr jsonString \<and> JSON_parse lib jsonString = Inr JNull \<longrightarrow>
          decodeImageFromHex lib inputHex = Inr (Text ''Unable to decode image data''))
   \<and> (\<exists>v. decodeNotice lib noticeHex = Inr v
        \<and> (v = Text ''Unable to decode notice''
           \<or> (\<exists>props children. v = Element ''div'' props children)))
   \<and> (\<forall>err. decodeAbiParameters lib noticeHex = Inl err \<longrightarrow>
          decodeNotice lib noticeHex = Inr (Text ''Unable to decode notice''))"
proof (intro conjI allI impI)
  show "\<exists>v. decodeImageFromHex lib inputHex = Inr v
        \<and> (v = Text ''Unable to decode image data''
           \<or> (\<exists>props children. v = Element ''div'' props children))"
    by (simp add: decodeImageFromHex_def decodeImageFromHex_try_def split: sum.splits)
next
  fix err assume "hexToString lib inputHex = Inl err"
  then show "decodeImageFromHex lib inputHex = Inr (Text ''Unable to decode image data'')"
    by (simp add: decodeImageFromHex_def decodeImageFromHex_try_def)
next
  fix jsonString err
  assume "hexToString lib inputHex = Inr jsonString \<and> JSON_parse lib jsonString = Inl err"
  then show "decodeImageFromHex lib inputHex = Inr (Text ''Unable to decode image data'')"
    by (simp add: decodeImageFromHex_def decodeImageFromHex_try_def)
next
  fix jsonString
  assume "hexToString lib inputHex = Inr jsonString \<and> JSON_parse lib jsonString = Inr JNull"
  then show "decodeImageFromHex lib inputHex = Inr (Text ''Unable to decode image data'')"
    by (simp add: decodeImageFromHex_def decodeImageFromHex_try_def)
next
  show "\<exists>v. decodeNotice lib noticeHex = Inr v
        \<and> (v = Text ''Unable to decode notice''
           \<or> (\<exists>props children. v = Element ''div'' props children))"
    by (simp add: decodeNotice_def decodeNotice_try_def split: sum.splits)
next
  fix err assume "decodeAbiParameters lib noticeHex = Inl err"
  then show "decodeNotice lib noticeHex = Inr (Text ''Unable to decode notice'')"
    by (simp add: decodeNotice_def decodeNotice_try_def)
qed

theorem decoders_never_throw_witness:
  "hexToString example_library ''0xzz'' = Inl (Error ''Invalid byte sequence'')
   \<and> decodeImageFromHex example_library ''0xzz'' = Inr (Text ''Unable to decode image data'')
   \<and> hexToString example_library ''0x6e756c6c'' = Inr ''null''
   \<and> JSON_parse example_library ''null'' = Inr JNull
   \<and> decodeImageFromHex example_library ''0x6e756c6c'' = Inr (Text ''Unable to decode image data'')
   \<and> decodeAbiParameters example_library ''0x'' = Inl (Error ''Cannot decode'')
   \<and> decodeNotice example_library ''0x'' = Inr (Text ''Unable to decode notice'')"
proof -
  have 1: "hexToString example_library ''0xzz'' = Inl (Error ''Invalid byte sequence'')"
    and 2: "hexToString example_library ''0x6e756c6c'' = Inr ''null''"
    by (simp_all add: example_library_def example_decoding)
  have 3: "JSON_parse example_library ''null'' = Inr JNull"
    by (simp add: example_library_def example_input_text_def)
  have 4: "decodeAbiParameters example_library ''0x'' = Inl (Error ''Cannot decode'')"
    by (simp add: example_library_def example_notice_hex_def)
  from decoders_never_throw [of example_library "''0xzz''" "''0x''"] 1 4
  have "decodeImageFromHex example_library ''0xzz'' = Inr (Text ''Unable to decode image data'')"
    and "decodeNotice example_library ''0x'' = Inr (Text ''Unable to decode notice'')"
    by simp_all
  moreover from decoders_never_throw [of example_library "''0x6e756c6c''" "''0x''"] 2 3
  have "decodeImageFromHex example_library ''0x6e756c6c'' =
      Inr (Text ''Unable to decode image data'')"
    by simp
  ultimately show ?thesis using 1 2 3 4 by blast
qed

text \<open>
  Claim C6, as the code has it. \<^verbatim>\<open>decodeNotice\<close> does not compare the lengths of
  \<^verbatim>\<open>classes\<close> and \<^verbatim>\<open>probabilities\<close>. Whenever \<^verbatim>\<open>decodeAbiParameters\<close> returns a
  tuple, with lists of equal or of different lengths, the decoder returns a display
  and not the fixed string: one line per class, the class at position \<open>i\<close> with the
  probability at position \<open>i\<close>, \<^verbatim>\<open>NaN\<close> for a class past the end of the probabilities;
  probabilities past the end of the classes are not shown.
\<close>

theorem notice_lengths_not_checked:
  assumes "decodeAbiParameters lib noticeHex = Inr n"
  shows "decodeNotice lib noticeHex =
           Inr (Element ''div'' []
                 [Element ''p'' []
                    [Element ''strong'' [] [Text ''Result:''], Text '' '',
                     Text (toString10 (result n)), Text '' %''],
                  Element ''p'' []
                    [Element ''strong'' [] [Text ''Theme:''], Text '' '', Text (theme n)],
                  Element ''p'' [] [Element ''strong'' [] [Text ''Classes:'']],
                  Element ''ul'' []
                    (map (\<lambda>i. Element ''li'' [(''key'', toString10 (int i))]
                               [Text (classes n ! i), Text '': '',
                                Text (if i < length (probabilities n)
                                      then toFixed1 lib (toNumber (probabilities n ! i))
                                      else ''NaN''),
                                Text ''%''])
                       [0..<length (classes n)])])
         \<and> decodeNotice lib noticeHex \<noteq> Inr (Text ''Unable to decode notice'')"
proof -
  have "map (class_item lib (probabilities n)) (zip (classes n) [0..<length (classes n)]) =
        map (\<lambda>i. Element ''li'' [(''key'', toString10 (int i))]
                               [Text (classes n ! i), Text '': '',
                                Text (if i < length (probabilities n)
                                      then toFixed1 lib (toNumber (probabilities n ! i))
                                      else ''NaN''),
                                Text ''%''])
                       [0..<length (classes n)]"
    by (rule nth_equalityI) (simp_all add: class_item_def probability_text_def)
  with assms show ?thesis
    by (simp add: decodeNotice_def decodeNotice_try_def)
qed

theorem notice_lengths_not_checked_witness:
  "decodeAbiParameters example_library example_notice_hex =
     Inr \<lparr>result = 90, theme = ''cat'', classes = [''cat'', ''dog''], probabilities = [90]\<rparr>
   \<and> decodeNotice example_library example_notice_hex \<noteq> Inr (Text ''Unable to decode notice'')"
proof -
  have 1: "decodeAbiParameters example_library example_notice_hex =
     Inr \<lparr>result = 90, theme = ''cat'', classes = [''cat'', ''dog''], probabilities = [90]\<rparr>"
    by (simp add: example_library_def)
  from notice_lengths_not_checked [OF 1] 1 show ?thesis by blast
qed

theorem notice_length_mismatch_counterexample:
  "decodeAbiParameters example_library example_notice_hex =
     Inr \<lparr>result = 90, theme = ''cat'', classes = [''cat'', ''dog''], probabilities = [90]\<rparr>
   \<and> length [''cat'', ''dog''] \<noteq> length [90 :: int]
   \<and> decodeNotice example_library example_notice_hex =
       Inr (Element ''div'' []
             [Element ''p'' []
                [Element ''strong'' [] [Text ''Result:''], Text '' '', Text ''90'', Text '' %''],
              Element ''p'' []
                [Element ''strong'' [] [Text ''Theme:''], Text '' '', Text ''cat''],
              Element ''p'' [] [Element ''strong'' [] [Text ''Classes:'']],
              Element ''ul'' []
                [Element ''li'' [(''key'', ''0'')]
                   [Text ''cat'', Text '': '', Text ''90.0'', Text ''%''],
                 Element ''li'' [(''key'', ''1'')]
                   [Text ''dog'', Text '': '', Text ''NaN'', Text ''%'']]])"
proof -
  have n: "toNumber 90 = Num 90"
    by (simp add: toNumber_def round_to_double_def bit_length.simps)
  have d: "toString10 90 = ''90''" "toString10 0 = ''0''" "toString10 1 = ''1''"
    by (simp_all add: toString10_def digits10.simps)
  have u: "[0..<2] = [0, 1]" by (simp add: upt_rec)
  have 1: "decodeAbiParameters example_library example_notice_hex =
     Inr \<lparr>result = 90, theme = ''cat'', classes = [''cat'', ''dog''], probabilities = [90]\<rparr>"
    by (simp add: example_library_def)
  then show ?thesis
    by (simp add: decodeNotice_def decodeNotice_try_def class_item_def probability_text_def
        n d u)
qed

text \<open>
  Claim C7. \<^verbatim>\<open>decodeImageFromHex\<close> on the encoding of a record \<^verbatim>\<open>{image, theme}\<close>. The
  encoding is \<open>toHex (stringify obj)\<close> for the object \<open>obj\<close> with the two string
  fields; \<open>stringify\<close> (\<^verbatim>\<open>JSON.stringify\<close>) and \<open>toHex\<close> (the hex of the UTF-8 bytes)
  are not part of the repository and are parameters, with the round trip of the
  library on this input as hypotheses: \<^verbatim>\<open>hexToString\<close> gives back the text, and
  \<^verbatim>\<open>JSON.parse\<close> gives back the object. Then the decoder returns the element whose
  image source is the prefix \<^verbatim>\<open>data:image/png;base64,\<close> followed by exactly \<open>image\<close>,
  and whose text is exactly \<open>theme\<close>.
\<close>

theorem decode_image_roundtrip:
  assumes "hexToString lib
             (toHex (stringify (JObject [(''image'', JString image_b64), (''theme'', JString theme_text)])))
           = Inr (stringify (JObject [(''image'', JString image_b64), (''theme'', JString theme_text)]))"
    and "JSON_parse lib
             (stringify (JObject [(''image'', JString image_b64), (''theme'', JString theme_text)]))
           = Inr (JObject [(''image'', JString image_b64), (''theme'', JString theme_text)])"
  shows "decodeImageFromHex lib
           (toHex (stringify (JObject [(''image'', JString image_b64), (''theme'', JString theme_text)])))
         = Inr (Element ''div'' [(''className'', ''image-container'')]
                 [Element ''img''
                    [(''src'', ''data:image/png;base64,'' @ image_b64),
                     (''alt'', ''User submission''),
                     (''className'', ''submission-thumbnail'')] [],
                  Element ''p'' [(''className'', ''theme-text'')]
                    [Expr (Some (JString theme_text))]])"
  using assms by (simp add: decodeImageFromHex_def decodeImageFromHex_try_def)

theorem decode_image_roundtrip_witness:
  "example_toHex (example_stringify (JObject [(''image'', JString ''aGk=''), (''theme'', JString ''cat'')]))
     = example_input_hex
   \<and> hexToString example_library example_input_hex = Inr example_input_text
   \<and> JSON_parse example_library example_input_text
     = Inr (JObject [(''image'', JString ''aGk=''), (''theme'', JString ''cat'')])
   \<and> decodeImageFromHex example_library example_input_hex =
           Inr (Element ''div'' [(''className'', ''image-container'')]
                 [Element ''img''
                    [(''src'', ''data:image/png;base64,aGk=''),
                     (''alt'', ''User submission''),
                     (''className'', ''submission-thumbnail'')] [],
                  Element ''p'' [(''className'', ''theme-text'')]
                    [Expr (Some (JString ''cat''))]])"
proof -
  let ?obj = "JObject [(''image'', JString ''aGk=''), (''theme'', JString ''cat'')]"
  have e: "example_toHex (example_stringify ?obj) = example_input_hex"
    by (simp only: example_encoding)
  have s: "example_stringify ?obj = example_input_text"
    by (simp only: example_encoding)
  have h: "hexToString example_library example_input_hex = Inr example_input_text"
    by (simp add: example_library_def example_decoding)
  have j: "JSON_parse example_library example_input_text = Inr ?obj"
    by (simp add: example_library_def)
  have 1: "hexToString example_library (example_toHex (example_stringify ?obj))
     = Inr (example_stringify ?obj)"
    by (simp only: example_encoding h)
  have 2: "JSON_parse example_library (example_stringify ?obj) = Inr ?obj"
    by (simp only: example_encoding j)
  from decode_image_roundtrip
    [of example_library example_toHex example_stringify "''aGk=''" "''cat''", OF 1 2]
  have "decodeImageFromHex example_library example_input_hex =
           Inr (Element ''div'' [(''className'', ''image-container'')]
                 [Element ''img''
                    [(''src'', ''data:image/png;base64,aGk=''),
                     (''alt'', ''User submission''),
                     (''className'', ''submission-thumbnail'')] [],
                  Element ''p'' [(''className'', ''theme-text'')]
                    [Expr (Some (JString ''cat''))]])"
    unfolding e by simp
  with e h j show ?thesis by blast
qed

section \<open>The view\<close>

text \<open>
  Claim C8. A click on a task card sets \<^verbatim>\<open>selectedPayloadHash\<close> to \<^verbatim>\<open>keccak256\<close> of
  the input of the task and \<^verbatim>\<open>inputDetails\<close> to the transaction hash and the decimal
  block number of the task; the view becomes the detail view (the hash is not the
  empty string), and the task list and the address are kept. The back button sets
  \<^verbatim>\<open>selectedPayloadHash\<close> to \<^verbatim>\<open>null\<close>: the view becomes the listing, the task list
  and the address are kept, and no fetch is started.
\<close>

theorem view_transitions:
  "(keccak256 lib (input (args task)) \<noteq> [] \<longrightarrow> current_view (task_onClick lib task app) = Detail)
   \<and> selectedPayloadHash (task_onClick lib task app) = Some (keccak256 lib (input (args task)))
   \<and> inputDetails (task_onClick lib task app) =
       Some \<lparr>hash = transactionHash task,
             input_details.blockNumber = toString10 (blockNumber task)\<rparr>
   \<and> tasks (task_onClick lib task app) = tasks app
   \<and> userAddress (task_onClick lib task app) = userAddress app
   \<and> current_view (back_onClick app) = Listing
   \<and> selectedPayloadHash (back_onClick app) = None
   \<and> tasks (back_onClick app) = tasks app
   \<and> userAddress (back_onClick app) = userAddress app
   \<and> fetches_started app (back_onClick app) = []"
  by (simp add: task_onClick_def handleTaskClick_def computePayloadHash_def back_onClick_def
      current_view_def fetches_started_def input_details.defs)

theorem view_transitions_witness:
  "keccak256 example_library (input (args (hd (tasks example_app)))) \<noteq> []
   \<and> current_view example_app = Listing
   \<and> current_view (task_onClick example_library (hd (tasks example_app)) example_app) = Detail
   \<and> selectedPayloadHash (task_onClick example_library (hd (tasks example_app)) example_app) =
       Some ''0xa13be3978362166c97a9479d74127aa60ade36c56b98959631d2016aafc81042''
   \<and> inputDetails (task_onClick example_library (hd (tasks example_app)) example_app) =
       Some \<lparr>hash = ''0xaa'', input_details.blockNumber = ''3358700''\<rparr>
   \<and> current_view (back_onClick (task_onClick example_library (hd (tasks example_app)) example_app))
       = Listing
   \<and> tasks (back_onClick (task_onClick example_library (hd (tasks example_app)) example_app))
       = tasks example_app"
proof -
  let ?t = "hd (tasks example_app)"
  have k: "keccak256 example_library (input (args ?t)) \<noteq> []"
    by (simp add: example_library_def)
  have l: "current_view example_app = Listing"
    by (simp add: current_view_def example_app_def)
  have d: "toString10 (blockNumber ?t) = ''3358700''" "transactionHash ?t = ''0xaa''"
    by (simp_all add: example_app_def toString10_def digits10.simps)
  from view_transitions [of example_library ?t example_app] k
  have 1: "current_view (task_onClick example_library ?t example_app) = Detail"
    and 2: "inputDetails (task_onClick example_library ?t example_app) =
       Some \<lparr>hash = ''0xaa'', input_details.blockNumber = ''3358700''\<rparr>"
    and 5: "selectedPayloadHash (task_onClick example_library ?t example_app) =
       Some ''0xa13be3978362166c97a9479d74127aa60ade36c56b98959631d2016aafc81042''"
    by (simp_all add: d example_library_def)
  from view_transitions [of example_library ?t "task_onClick example_library ?t example_app"]
    view_transitions [of example_library ?t example_app]
  have 3: "current_view (back_onClick (task_onClick example_library ?t example_app)) = Listing"
    and 4: "tasks (back_onClick (task_onClick example_library ?t example_app)) = tasks example_app"
    by simp_all
  from k l 1 2 3 4 5 show ?thesis by blast
qed

end
